theory Spec2Isabelle
  imports Complex_Main
begin

section \<open>Tensors\<close>

text \<open>
  The arithmetic of \<^verbatim>\<open>deep_lift_shap.py\<close> is embedded over the real numbers: a tensor
  is a nested list of reals, its leading axis the outer list. Rounding, infinities and
  NaN of the floating-point types are outside the embedding; in particular a division
  by zero yields \<open>0\<close> here where torch yields \<open>inf\<close> or \<open>nan\<close>.

  A tensor with an axis of size zero loses the sizes of the axes behind it (\<open>[]\<close> has no
  rows to measure), so \<open>shape3\<close> reports them as \<open>0\<close>.
\<close>

type_synonym vec = "real list"
type_synonym tensor2 = "real list list"
type_synonym tensor3 = "real list list list"
type_synonym tensor4 = "real list list list list"

definition shape3 :: "tensor3 \<Rightarrow> nat \<times> nat \<times> nat" where
  "shape3 t =
     (length t,
      (case t of [] \<Rightarrow> 0 | m # _ \<Rightarrow> length m),
      (case concat t of [] \<Rightarrow> 0 | c # _ \<Rightarrow> length c))"

text \<open>A nested list is a tensor of shape \<open>(B, A, L)\<close> when it is rectangular.\<close>

definition is_tensor3 :: "nat \<Rightarrow> nat \<Rightarrow> nat \<Rightarrow> tensor3 \<Rightarrow> bool" where
  "is_tensor3 B A L t \<longleftrightarrow>
     length t = B \<and> list_all (\<lambda>m. length m = A \<and> list_all (\<lambda>c. length c = L) m) t"

definition zeros_like :: "tensor3 \<Rightarrow> tensor3" where
  "zeros_like t = map (map (map (\<lambda>_. 0))) t"

definition sub3 :: "tensor3 \<Rightarrow> tensor3 \<Rightarrow> tensor3" where
  "sub3 s t = map2 (map2 (map2 (-))) s t"

definition mul3 :: "tensor3 \<Rightarrow> tensor3 \<Rightarrow> tensor3" where
  "mul3 s t = map2 (map2 (map2 (*))) s t"

text \<open>\<^verbatim>\<open>t[:, i] = c\<close> for a scalar \<open>c\<close>, and \<^verbatim>\<open>t[:, i] = v\<close> for a \<open>(B, L)\<close> tensor \<open>v\<close>.\<close>

definition fill_col :: "nat \<Rightarrow> real \<Rightarrow> tensor3 \<Rightarrow> tensor3" where
  "fill_col i c t = map (\<lambda>m. m[i := map (\<lambda>_. c) (m ! i)]) t"

definition set_col :: "nat \<Rightarrow> tensor2 \<Rightarrow> tensor3 \<Rightarrow> tensor3" where
  "set_col i v t = map2 (\<lambda>row m. m[i := row]) v t"

text \<open>\<^verbatim>\<open>torch.sum(t, dim=1)\<close>: the sum over the alphabet axis, a \<open>(B, L)\<close> tensor.\<close>

definition sum_dim1 :: "tensor3 \<Rightarrow> tensor2" where
  "sum_dim1 t = map (\<lambda>m. foldr (map2 (+)) m (replicate (snd (snd (shape3 t))) 0)) t"


section \<open>The hypothetical-attribution projector\<close>

datatype error =
    ValueError string
  | AssertionError
  | IndexError
  | KeyError
  | AttributeError
  | TypeError
  | RuntimeError string

text \<open>
  The arguments of \<^verbatim>\<open>hypothetical_attributions\<close> are Python objects: the function itself
  checks that each is a one-element tuple of a tensor. \<open>Object\<close> stands for a value that
  is neither a tuple nor a tensor.
\<close>

datatype pyval = Tensor tensor3 | Tuple "pyval list" | Object

text \<open>
  The first two checks of the loop \<^verbatim>\<open>for val in multipliers, X, references\<close>, which do
  not depend on the other arguments.
\<close>

fun the_tensor :: "pyval \<Rightarrow> error + tensor3" where
  "the_tensor (Tuple [Tensor t]) = Inr t"
| "the_tensor (Tuple [_]) =
     Inl (ValueError ''The first element of each input must be a tensor.'')"
| "the_tensor _ = Inl (ValueError ''All inputs must be one-element tuples.'')"

text \<open>The loop \<^verbatim>\<open>for i in range(X[0].shape[1])\<close> over the symbols of the alphabet.\<close>

definition project_symbol :: "tensor3 \<Rightarrow> tensor3 \<Rightarrow> tensor3 \<Rightarrow> tensor3 \<Rightarrow> nat \<Rightarrow> tensor3" where
  "project_symbol multipliers X references projected_contribs i =
     (let hypothetical_input = fill_col i 1 (zeros_like X);
          hypothetical_diffs = sub3 hypothetical_input references;
          hypothetical_contribs = mul3 hypothetical_diffs multipliers
      in set_col i (sum_dim1 hypothetical_contribs) projected_contribs)"

definition projected_contribs :: "tensor3 \<Rightarrow> tensor3 \<Rightarrow> tensor3 \<Rightarrow> tensor3" where
  "projected_contribs multipliers X references =
     foldl (project_symbol multipliers X references) (zeros_like references)
       [0 ..< fst (snd (shape3 X))]"

definition hypothetical_attributions :: "pyval \<Rightarrow> pyval \<Rightarrow> pyval \<Rightarrow> error + pyval" where
  "hypothetical_attributions multipliers X references =
     (case the_tensor multipliers of Inl e \<Rightarrow> Inl e | Inr m \<Rightarrow>
       (case the_tensor X of Inl e \<Rightarrow> Inl e | Inr x \<Rightarrow>
          if shape3 x \<noteq> shape3 m
          then Inl (ValueError ''Shape of all tensors must match.'')
          else (case the_tensor references of Inl e \<Rightarrow> Inl e | Inr r \<Rightarrow>
                  if shape3 r \<noteq> shape3 m
                  then Inl (ValueError ''Shape of all tensors must match.'')
                  else Inr (Tuple [Tensor (projected_contribs m x r)]))))"



section \<open>The rescale rules\<close>

text \<open>
  A backward rule receives the module (of which it reads the cached \<^verbatim>\<open>input\<close> and
  \<^verbatim>\<open>output\<close>), the tuples \<^verbatim>\<open>grad_input\<close> and \<^verbatim>\<open>grad_output\<close> (of which it reads the first
  element) and \<^verbatim>\<open>eps\<close>, and returns a one-element tuple. The embedding passes the cached
  tensors and the first elements, and returns the element of the result.

  \<^verbatim>\<open>_nonlinear\<close> and \<^verbatim>\<open>_softmax\<close> touch the batch axis only, so they are embedded on
  tensors of shape (batch, features).
\<close>

text \<open>
  \<^verbatim>\<open>t.chunk(2)\<close> along the batch axis: chunks of \<open>\<lceil>n / 2\<rceil>\<close> rows. (For a single row torch
  returns one chunk, and unpacking it into \<^verbatim>\<open>torch.sub\<close> fails; the engine only caches even
  batches.)
\<close>

definition chunk2 :: "'a list \<Rightarrow> 'a list \<times> 'a list" where
  "chunk2 t = (take ((length t + 1) div 2) t, drop ((length t + 1) div 2) t)"

definition sub2 :: "tensor2 \<Rightarrow> tensor2 \<Rightarrow> tensor2" where
  "sub2 s t = map2 (map2 (-)) s t"

definition mul2 :: "tensor2 \<Rightarrow> tensor2 \<Rightarrow> tensor2" where
  "mul2 s t = map2 (map2 (*)) s t"

definition div2 :: "tensor2 \<Rightarrow> tensor2 \<Rightarrow> tensor2" where
  "div2 s t = map2 (map2 (/)) s t"

text \<open>\<^verbatim>\<open>torch.abs(t) < eps\<close> and \<^verbatim>\<open>torch.where(c, s, t)\<close>.\<close>

definition abs_less2 :: "tensor2 \<Rightarrow> real \<Rightarrow> bool list list" where
  "abs_less2 t eps = map (map (\<lambda>d. \<bar>d\<bar> < eps)) t"

definition where2 :: "bool list list \<Rightarrow> tensor2 \<Rightarrow> tensor2 \<Rightarrow> tensor2" where
  "where2 c s t =
     map2 (\<lambda>cs (ss, ts). map2 (\<lambda>c (s, t). if c then s else t) cs (zip ss ts)) c (zip s t)"

text \<open>\<^verbatim>\<open>t.sum()\<close> and \<^verbatim>\<open>t.numel()\<close>.\<close>

definition sum_all :: "tensor2 \<Rightarrow> real" where
  "sum_all t = sum_list (concat t)"

definition numel :: "tensor2 \<Rightarrow> nat" where
  "numel t = length (concat t)"

definition nonlinear :: "tensor2 \<Rightarrow> tensor2 \<Rightarrow> tensor2 \<Rightarrow> tensor2 \<Rightarrow> real \<Rightarrow> tensor2" where
  "nonlinear module_input module_output grad_input grad_output eps =
     (let delta_in' = sub2 (fst (chunk2 module_input)) (snd (chunk2 module_input));
          delta_out' = sub2 (fst (chunk2 module_output)) (snd (chunk2 module_output));
          delta_in = delta_in' @ delta_in';
          delta_out = delta_out' @ delta_out';
          delta = div2 delta_out delta_in;
          idxs = abs_less2 delta_in eps
      in where2 idxs grad_input (mul2 grad_output delta))"

definition softmax :: "tensor2 \<Rightarrow> tensor2 \<Rightarrow> tensor2 \<Rightarrow> tensor2 \<Rightarrow> real \<Rightarrow> tensor2" where
  "softmax module_input module_output grad_input grad_output eps =
     (let delta_in' = sub2 (fst (chunk2 module_input)) (snd (chunk2 module_input));
          delta_out' = sub2 (fst (chunk2 module_output)) (snd (chunk2 module_output));
          delta_in = delta_in' @ delta_in';
          delta_out = delta_out' @ delta_out';
          delta = div2 delta_out delta_in;
          idxs = abs_less2 delta_in eps;
          grad_input_unnorm = where2 idxs grad_input (mul2 grad_output delta);
          n = numel grad_input
      in map (map (\<lambda>g. g - sum_all grad_input_unnorm * 1 / real n)) grad_input_unnorm)"

text \<open>A tensor of shape \<open>(n, w)\<close>.\<close>

definition is_tensor2 :: "nat \<Rightarrow> nat \<Rightarrow> tensor2 \<Rightarrow> bool" where
  "is_tensor2 n w t \<longleftrightarrow> length t = n \<and> list_all (\<lambda>r. length r = w) t"


subsection \<open>Max pooling\<close>

text \<open>
  \<^verbatim>\<open>torch.nn.MaxPool1d\<close> with its attributes. \<^verbatim>\<open>F.max_pool1d\<close> and \<^verbatim>\<open>F.max_unpool1d\<close> belong to
  torch; they are embedded from their documented behaviour on \<open>(N, C, L)\<close> tensors, for
  arguments torch accepts (a positive stride, a padding of at most half the kernel, an
  input long enough for one window). Their argument checks are not embedded.
  \<^verbatim>\<open>MaxPool2d\<close> and its four-axis tensors are outside the embedding: a module is a
  \<open>MaxPool1d\<close> or some module that is no pooling layer.
\<close>

record maxpool1d =
  kernel_size :: nat
  stride :: nat
  padding :: nat
  dilation :: nat
  ceil_mode :: bool

datatype pool_module = MaxPool1d maxpool1d | NoPool

text \<open>The number of windows over an axis of length \<open>L\<close>.\<close>

definition pool_output_size :: "maxpool1d \<Rightarrow> nat \<Rightarrow> nat" where
  "pool_output_size mp L =
     (let span = int L + 2 * int (padding mp) - int (dilation mp) * (int (kernel_size mp) - 1) - 1
                   + (if ceil_mode mp then int (stride mp) - 1 else 0);
          n = nat (span div int (stride mp) + 1)
      in if ceil_mode mp \<and> (n - 1) * stride mp \<ge> L + padding mp then n - 1 else n)"

text \<open>The input positions of window \<open>ow\<close>; positions in the padding are left out.\<close>

definition window :: "maxpool1d \<Rightarrow> nat \<Rightarrow> nat \<Rightarrow> nat list" where
  "window mp L ow =
     map nat (filter (\<lambda>p. 0 \<le> p \<and> p < int L)
       (map (\<lambda>j. int (ow * stride mp + j * dilation mp) - int (padding mp))
          [0 ..< kernel_size mp]))"

text \<open>The first position that holds the greatest value.\<close>

fun argmax :: "vec \<Rightarrow> nat list \<Rightarrow> nat" where
  "argmax row [] = 0"
| "argmax row (p # ps) = foldl (\<lambda>best q. if row ! q > row ! best then q else best) p ps"

definition pool_indices :: "maxpool1d \<Rightarrow> vec \<Rightarrow> nat list" where
  "pool_indices mp row =
     map (\<lambda>ow. argmax row (window mp (length row) ow)) [0 ..< pool_output_size mp (length row)]"

text \<open>\<^verbatim>\<open>F.max_pool1d(..., return_indices=True)\<close>: the pooled values and their positions.\<close>

definition max_pool1d :: "tensor3 \<Rightarrow> maxpool1d \<Rightarrow> tensor3 \<times> nat list list list" where
  "max_pool1d t mp =
     (map (map (\<lambda>row. map (\<lambda>i. row ! i) (pool_indices mp row))) t,
      map (map (pool_indices mp)) t)"

text \<open>
  \<^verbatim>\<open>F.max_unpool1d\<close>: zeros of the output length \<open>L\<close> with every value written at its index,
  in the order of the windows (a later window overwrites an earlier one).
\<close>

definition unpool_row :: "nat \<Rightarrow> vec \<Rightarrow> nat list \<Rightarrow> vec" where
  "unpool_row L vals idx = foldl (\<lambda>out (i, v). out[i := v]) (replicate L 0) (zip idx vals)"

definition max_unpool1d :: "tensor3 \<Rightarrow> nat list list list \<Rightarrow> nat \<Rightarrow> tensor3" where
  "max_unpool1d t indices L = map2 (map2 (unpool_row L)) t indices"

definition add3 :: "tensor3 \<Rightarrow> tensor3 \<Rightarrow> tensor3" where
  "add3 s t = map2 (map2 (map2 (+))) s t"

definition div3 :: "tensor3 \<Rightarrow> tensor3 \<Rightarrow> tensor3" where
  "div3 s t = map2 (map2 (map2 (/))) s t"

definition max3 :: "tensor3 \<Rightarrow> tensor3 \<Rightarrow> tensor3" where
  "max3 s t = map2 (map2 (map2 max)) s t"

definition abs_less3 :: "tensor3 \<Rightarrow> real \<Rightarrow> bool list list list" where
  "abs_less3 t eps = map (map (map (\<lambda>d. \<bar>d\<bar> < eps))) t"

definition where3 :: "bool list list list \<Rightarrow> tensor3 \<Rightarrow> tensor3 \<Rightarrow> tensor3" where
  "where3 c s t =
     map2 (\<lambda>cs (ss, ts).
        map2 (\<lambda>cs (ss, ts). map2 (\<lambda>c (s, t). if c then s else t) cs (zip ss ts)) cs (zip ss ts))
       c (zip s t)"

definition maxpool ::
  "pool_module \<Rightarrow> tensor3 \<Rightarrow> tensor3 \<Rightarrow> tensor3 \<Rightarrow> tensor3 \<Rightarrow> real \<Rightarrow> error + tensor3" where
  "maxpool m module_input module_output grad_input grad_output eps =
     (case m of
        NoPool \<Rightarrow> Inl (ValueError ''module must be either MaxPool1d or MaxPool2d'')
      | MaxPool1d mp \<Rightarrow>
         (let delta_in' = sub3 (fst (chunk2 module_input)) (snd (chunk2 module_input));
              delta_in = delta_in' @ delta_in';
              output = fst (chunk2 module_output);
              output_ref = snd (chunk2 module_output);
              delta_out_xmax = max3 output output_ref;
              delta_out = sub3 delta_out_xmax output_ref @ sub3 output delta_out_xmax;
              indices = snd (max_pool1d module_input mp);
              unpool' = max_unpool1d (mul3 grad_output delta_out) indices
                          (snd (snd (shape3 module_input)));
              unpool_delta = fst (chunk2 unpool');
              unpool_ref_delta = snd (chunk2 unpool');
              unpool_delta' = add3 unpool_delta unpool_ref_delta;
              unpool_delta = unpool_delta' @ unpool_delta';
              idxs = abs_less3 delta_in eps
          in Inr (where3 idxs grad_input (div3 unpool_delta delta_in))))"

section \<open>Models\<close>

text \<open>
  The model is an object of torch, not of this file. The embedding covers models that
  flatten each \<open>(alphabet, length)\<close> example into a row of features and pass the rows
  through a sequence of modules: dense layers, the pointwise activations and
  \<^verbatim>\<open>Softmax\<close> over the features. The forward functions and the derivatives that
  \<^verbatim>\<open>torch.autograd\<close> uses for them are written out from torch's documentation.
  Convolutions and pooling inside a model, extra forward arguments (\<^verbatim>\<open>args\<close>), devices and
  the training mode are outside the embedding.
\<close>

datatype module_type =
    nn_Linear | nn_ReLU | nn_ELU | nn_LeakyReLU | nn_Sigmoid | nn_Tanh | nn_Softplus
  | nn_MaxPool1d | nn_MaxPool2d | nn_Softmax

text \<open>
  A layer with its parameters: the weight (one row per output feature) and bias of
  \<open>Linear\<close>, \<open>alpha\<close> of \<open>ELU\<close>, the negative slope of \<open>LeakyReLU\<close>, \<open>beta\<close> and the
  threshold of \<open>Softplus\<close>.
\<close>

datatype layer =
    Linear tensor2 vec
  | ReLU
  | ELU real
  | LeakyReLU real
  | Sigmoid
  | Tanh
  | Softplus real real
  | Softmax

fun type_of :: "layer \<Rightarrow> module_type" where
  "type_of (Linear W b) = nn_Linear"
| "type_of ReLU = nn_ReLU"
| "type_of (ELU alpha) = nn_ELU"
| "type_of (LeakyReLU slope) = nn_LeakyReLU"
| "type_of Sigmoid = nn_Sigmoid"
| "type_of Tanh = nn_Tanh"
| "type_of (Softplus beta threshold) = nn_Softplus"
| "type_of Softmax = nn_Softmax"

definition dot :: "vec \<Rightarrow> vec \<Rightarrow> real" where
  "dot u v = sum_list (map2 (*) u v)"

fun forward_row :: "layer \<Rightarrow> vec \<Rightarrow> vec" where
  "forward_row (Linear W b) x = map2 (\<lambda>w bi. dot w x + bi) W b"
| "forward_row ReLU x = map (\<lambda>v. max 0 v) x"
| "forward_row (ELU alpha) x = map (\<lambda>v. if v > 0 then v else alpha * (exp v - 1)) x"
| "forward_row (LeakyReLU slope) x = map (\<lambda>v. if v > 0 then v else slope * v) x"
| "forward_row Sigmoid x = map (\<lambda>v. 1 / (1 + exp (- v))) x"
| "forward_row Tanh x = map tanh x"
| "forward_row (Softplus beta threshold) x =
     map (\<lambda>v. if beta * v > threshold then v else ln (1 + exp (beta * v)) / beta) x"
| "forward_row Softmax x = map (\<lambda>v. exp v / sum_list (map exp x)) x"

text \<open>A dense layer refuses rows whose length is not its number of input features.\<close>

fun accepts :: "layer \<Rightarrow> vec \<Rightarrow> bool" where
  "accepts (Linear W b) x = list_all (\<lambda>w. length w = length x) W"
| "accepts _ x = True"

definition forward_layer :: "layer \<Rightarrow> tensor2 \<Rightarrow> error + tensor2" where
  "forward_layer l x =
     (if list_all (accepts l) x then Inr (map (forward_row l) x)
      else Inl (RuntimeError ''mat1 and mat2 shapes cannot be multiplied''))"

text \<open>
  The gradient with respect to a row \<open>x\<close> of the input, from the gradient \<open>g\<close> with respect
  to the row \<open>y\<close> of the output.
\<close>

fun backward_row :: "layer \<Rightarrow> vec \<Rightarrow> vec \<Rightarrow> vec \<Rightarrow> vec" where
  "backward_row (Linear W b) x y g =
     foldr (\<lambda>(gi, w) acc. map2 (+) (map ((*) gi) w) acc) (zip g W) (map (\<lambda>_. 0) x)"
| "backward_row ReLU x y g = map2 (\<lambda>v gv. if v > 0 then gv else 0) x g"
| "backward_row (ELU alpha) x y g = map2 (\<lambda>v gv. if v > 0 then gv else gv * alpha * exp v) x g"
| "backward_row (LeakyReLU slope) x y g = map2 (\<lambda>v gv. if v > 0 then gv else gv * slope) x g"
| "backward_row Sigmoid x y g = map2 (\<lambda>yv gv. gv * (1 - yv) * yv) y g"
| "backward_row Tanh x y g = map2 (\<lambda>yv gv. gv * (1 - yv * yv)) y g"
| "backward_row (Softplus beta threshold) x y g =
     map2 (\<lambda>v gv. if beta * v > threshold then gv
                    else gv * exp (beta * v) / (exp (beta * v) + 1)) x g"
| "backward_row Softmax x y g = map2 (\<lambda>yv gv. yv * (gv - dot g y)) y g"

definition backward_layer :: "layer \<Rightarrow> tensor2 \<Rightarrow> tensor2 \<Rightarrow> tensor2 \<Rightarrow> tensor2" where
  "backward_layer l x y g = map2 (\<lambda>(xr, yr) gr. backward_row l xr yr gr) (zip x y) g"


subsection \<open>Modules and their hooks\<close>

text \<open>
  A module carries three dictionaries of hooks, keyed by the id of the handle that
  \<^verbatim>\<open>register_..._hook\<close> returned, and the attributes \<^verbatim>\<open>input\<close> and \<^verbatim>\<open>output\<close> (here
  \<open>module_input\<close> and \<open>module_output\<close>) once a hook of the engine has set them. \<open>Fp_hook\<close>, \<open>F_hook\<close> and \<open>B_hook\<close> are the engine's
  \<^verbatim>\<open>_fp_hook\<close>, \<^verbatim>\<open>_f_hook\<close> and \<^verbatim>\<open>_b_hook\<close>; \<open>Foreign_hook\<close> is a hook that somebody else
  installed, taken to observe only.
\<close>

datatype hook = Fp_hook | F_hook | B_hook | Foreign_hook

record nn_module =
  layer :: layer
  forward_hooks :: "(nat \<times> hook) list"
  forward_pre_hooks :: "(nat \<times> hook) list"
  backward_hooks :: "(nat \<times> hook) list"
  module_input :: "tensor2 option"
  module_output :: "tensor2 option"

text \<open>
  The modules of the model, in the order of the forward pass, and the counter from
  which torch draws the ids of hook handles.
\<close>

record world =
  modules :: "nn_module list"
  next_id :: nat

datatype hooks_dict = Forward_hooks | Forward_pre_hooks | Backward_hooks

text \<open>A handle: the position of the module, the dictionary, the id.\<close>

type_synonym handle = "nat \<times> hooks_dict \<times> nat"

fun remove_hook :: "hooks_dict \<Rightarrow> nat \<Rightarrow> nn_module \<Rightarrow> nn_module" where
  "remove_hook Forward_hooks k m = m\<lparr>forward_hooks := filter (\<lambda>h. fst h \<noteq> k) (forward_hooks m)\<rparr>"
| "remove_hook Forward_pre_hooks k m =
     m\<lparr>forward_pre_hooks := filter (\<lambda>h. fst h \<noteq> k) (forward_pre_hooks m)\<rparr>"
| "remove_hook Backward_hooks k m =
     m\<lparr>backward_hooks := filter (\<lambda>h. fst h \<noteq> k) (backward_hooks m)\<rparr>"

text \<open>\<^verbatim>\<open>handle.remove()\<close>.\<close>

definition remove :: "handle \<Rightarrow> world \<Rightarrow> world" where
  "remove h w =
     (case h of (i, d, k) \<Rightarrow>
        if i < length (modules w)
        then w\<lparr>modules := (modules w)[i := remove_hook d k (modules w ! i)]\<rparr>
        else w)"


section \<open>The attribution engine\<close>

datatype rule = Nonlinear_rule | Maxpool_rule | Softmax_rule

record DeepLiftShap =
  eps :: real
  warning_threshold :: real
  verbose :: bool
  handles :: "handle list"
  NON_LINEAR_OPS :: "module_type \<Rightarrow> rule option"

text \<open>
  \<^verbatim>\<open>__init__\<close>. Of \<^verbatim>\<open>additional_nonlinear_ops\<close> the embedding admits the three rules of the
  file as values.
\<close>

definition DeepLiftShap_init ::
  "(module_type \<Rightarrow> rule option) option \<Rightarrow> real \<Rightarrow> real \<Rightarrow> bool \<Rightarrow> DeepLiftShap" where
  "DeepLiftShap_init additional_nonlinear_ops eps' warning_threshold' verbose' =
     \<lparr>eps = eps', warning_threshold = warning_threshold', verbose = verbose', handles = [],
      NON_LINEAR_OPS =
        (let ops = map_of
               [(nn_ReLU, Nonlinear_rule), (nn_ELU, Nonlinear_rule),
                (nn_LeakyReLU, Nonlinear_rule), (nn_Sigmoid, Nonlinear_rule),
                (nn_Tanh, Nonlinear_rule), (nn_Softplus, Nonlinear_rule),
                (nn_MaxPool1d, Maxpool_rule), (nn_MaxPool2d, Maxpool_rule),
                (nn_Softmax, Softmax_rule)]
         in case additional_nonlinear_ops of None \<Rightarrow> ops | Some extra \<Rightarrow> ops ++ extra)\<rparr>"

definition fp_hook :: "nn_module \<Rightarrow> tensor2 \<Rightarrow> nn_module" where
  "fp_hook m inputs = m\<lparr>module_input := Some inputs\<rparr>"

definition f_hook :: "nn_module \<Rightarrow> tensor2 \<Rightarrow> nn_module" where
  "f_hook m outputs = m\<lparr>module_output := Some outputs\<rparr>"

text \<open>
  \<^verbatim>\<open>_b_hook\<close> looks the rule up by the type of the module and calls it. No module of the
  embedded models is a pooling layer, so \<^verbatim>\<open>_maxpool\<close> can only raise its \<open>ValueError\<close>
  here.
\<close>

definition b_hook :: "DeepLiftShap \<Rightarrow> nn_module \<Rightarrow> tensor2 \<Rightarrow> tensor2 \<Rightarrow> error + tensor2" where
  "b_hook self m grad_input grad_output =
     (case NON_LINEAR_OPS self (type_of (layer m)) of
        None \<Rightarrow> Inl KeyError
      | Some Maxpool_rule \<Rightarrow> Inl (ValueError ''module must be either MaxPool1d or MaxPool2d'')
      | Some r \<Rightarrow>
         (case (module_input m, module_output m) of
            (Some inp, Some outp) \<Rightarrow>
              Inr ((if r = Softmax_rule then softmax else nonlinear)
                     inp outp grad_input grad_output (eps self))
          | _ \<Rightarrow> Inl AttributeError))"

text \<open>\<^verbatim>\<open>_register_hooks\<close>, applied to the module at position \<open>i\<close>.\<close>

definition register_hooks :: "nat \<Rightarrow> DeepLiftShap \<times> world \<Rightarrow> DeepLiftShap \<times> world" where
  "register_hooks i sw =
     (case sw of (self, w) \<Rightarrow>
        let m = modules w ! i in
        if length (backward_hooks m) > 0 then (self, w)
        else if NON_LINEAR_OPS self (type_of (layer m)) = None then (self, w)
        else
          let k = next_id w;
              m' = m\<lparr>forward_hooks := forward_hooks m @ [(k, F_hook)],
                     forward_pre_hooks := forward_pre_hooks m @ [(k + 1, Fp_hook)],
                     backward_hooks := backward_hooks m @ [(k + 2, B_hook)]\<rparr>
          in (self\<lparr>handles := handles self @
                 [(i, Forward_hooks, k), (i, Forward_pre_hooks, k + 1), (i, Backward_hooks, k + 2)]\<rparr>,
              w\<lparr>modules := (modules w)[i := m'], next_id := k + 3\<rparr>))"

text \<open>\<^verbatim>\<open>self.model.apply(self._register_hooks)\<close>: every module in turn.\<close>

definition apply_register_hooks :: "DeepLiftShap \<times> world \<Rightarrow> DeepLiftShap \<times> world" where
  "apply_register_hooks sw =
     foldl (\<lambda>sw i. register_hooks i sw) sw [0 ..< length (modules (snd sw))]"

definition has_hook :: "hook \<Rightarrow> (nat \<times> hook) list \<Rightarrow> bool" where
  "has_hook h hs \<longleftrightarrow> h \<in> set (map snd hs)"

text \<open>Calling a module: its forward pre-hooks, its layer, its forward hooks.\<close>

definition call_module :: "nn_module \<Rightarrow> tensor2 \<Rightarrow> nn_module \<times> (error + tensor2)" where
  "call_module m x =
     (let m1 = (if has_hook Fp_hook (forward_pre_hooks m) then fp_hook m x else m)
      in case forward_layer (layer m1) x of
           Inl e \<Rightarrow> (m1, Inl e)
         | Inr y \<Rightarrow> (if has_hook F_hook (forward_hooks m1) then f_hook m1 y else m1, Inr y))"

text \<open>
  The forward pass returns the modules (their caches written), and either the error
  that stopped it or the input and output of every module, for the backward pass, with
  the output of the last.
\<close>

fun forward ::
  "nn_module list \<Rightarrow> tensor2 \<Rightarrow> nn_module list \<times> (error + (tensor2 \<times> tensor2) list \<times> tensor2)" where
  "forward [] x = ([], Inr ([], x))"
| "forward (m # ms) x =
     (case call_module m x of
        (m', Inl e) \<Rightarrow> (m' # ms, Inl e)
      | (m', Inr y) \<Rightarrow>
          (case forward ms y of
             (ms', Inl e) \<Rightarrow> (m' # ms', Inl e)
           | (ms', Inr (tape, out)) \<Rightarrow> (m' # ms', Inr ((x, y) # tape, out))))"

text \<open>
  The backward pass: the gradient reaches the last module first. A module with the
  engine's backward hook hands the gradients to \<^verbatim>\<open>_b_hook\<close>, whose result replaces the
  gradient with respect to the module's input.
\<close>

fun backward ::
  "DeepLiftShap \<Rightarrow> nn_module list \<Rightarrow> (tensor2 \<times> tensor2) list \<Rightarrow> tensor2 \<Rightarrow> error + tensor2" where
  "backward self (m # ms) ((x, y) # tape) g =
     (case backward self ms tape g of
        Inl e \<Rightarrow> Inl e
      | Inr grad_output \<Rightarrow>
          (let grad_input = backward_layer (layer m) x y grad_output
           in if has_hook B_hook (backward_hooks m) then b_hook self m grad_input grad_output
              else Inr grad_input))"
| "backward self _ _ g = Inr g"

text \<open>
  \<^verbatim>\<open>t[:, target]\<close> with Python's indexing, and the gradient of the sum of that column
  with respect to \<open>t\<close>.
\<close>

definition column_index :: "vec \<Rightarrow> int \<Rightarrow> error + nat" where
  "column_index row target =
     (let n = int (length row); j = (if target < 0 then n + target else target)
      in if 0 \<le> j \<and> j < n then Inr (nat j) else Inl IndexError)"

fun select_column :: "tensor2 \<Rightarrow> int \<Rightarrow> error + vec" where
  "select_column [] target = Inr []"
| "select_column (row # t) target =
     (case column_index row target of
        Inl e \<Rightarrow> Inl e
      | Inr j \<Rightarrow> (case select_column t target of Inl e \<Rightarrow> Inl e | Inr y \<Rightarrow> Inr (row ! j # y)))"

definition grad_of_column_sum :: "tensor2 \<Rightarrow> int \<Rightarrow> tensor2" where
  "grad_of_column_sum t target =
     map (\<lambda>row. case column_index row target of
                   Inl e \<Rightarrow> map (\<lambda>_. 0) row
                 | Inr j \<Rightarrow> (map (\<lambda>_. 0) row)[j := 1]) t"

text \<open>The gradient of a flattened example, in the shape of the example.\<close>

fun unflatten_like :: "'b list list \<Rightarrow> 'a list \<Rightarrow> 'a list list" where
  "unflatten_like [] g = []"
| "unflatten_like (r # rs) g = take (length r) g # unflatten_like rs (drop (length r) g)"

datatype event = RuntimeWarning vec | Printed vec

text \<open>
  The body of the \<^verbatim>\<open>try\<close> block after the hooks are registered: the pass over the model
  and the convergence deltas. It returns the modules as the pass left them.
\<close>

definition gradient_pass ::
  "DeepLiftShap \<Rightarrow> nn_module list \<Rightarrow> tensor3 \<Rightarrow> tensor3 \<Rightarrow> int
     \<Rightarrow> nn_module list \<times> (error + tensor3 \<times> vec)" where
  "gradient_pass self ms X references target =
     (case forward ms (map concat (X @ references)) of
        (ms', Inl e) \<Rightarrow> (ms', Inl e)
      | (ms', Inr (tape, out)) \<Rightarrow>
         (ms',
          case select_column out target of
            Inl e \<Rightarrow> Inl e
          | Inr y \<Rightarrow>
             (case backward self ms' tape (grad_of_column_sum out target) of
                Inl e \<Rightarrow> Inl e
              | Inr g \<Rightarrow>
                 (let gradients = map2 unflatten_like X (take (length X) g);
                      output_diff = map2 (-) (fst (chunk2 y)) (snd (chunk2 y));
                      input_diff = map (\<lambda>t. sum_list (concat t))
                                     (mul3 (sub3 X references) gradients);
                      convergence_deltas = map2 (\<lambda>a b. \<bar>a - b\<bar>) output_diff input_diff
                  in Inr (gradients, convergence_deltas)))))"

text \<open>
  \<^verbatim>\<open>attribute\<close> returns the gradients or raises; either way it leaves the engine object,
  the modules and the warnings and printouts it issued.
\<close>

definition attribute ::
  "DeepLiftShap \<Rightarrow> world \<Rightarrow> tensor3 \<Rightarrow> tensor3 \<Rightarrow> int
     \<Rightarrow> (error + tensor3) \<times> DeepLiftShap \<times> world \<times> event list" where
  "attribute self w X references target =
     (if shape3 X \<noteq> shape3 references then (Inl AssertionError, self, w, [])
      else
        (case apply_register_hooks (self, w) of (self1, w1) \<Rightarrow>
          (case gradient_pass self1 (modules w1) X references target of (ms2, body) \<Rightarrow>
            (let events =
                   (case body of
                      Inl e \<Rightarrow> []
                    | Inr (gradients, convergence_deltas) \<Rightarrow>
                        (if list_ex (\<lambda>d. d > warning_threshold self1) convergence_deltas
                         then [RuntimeWarning convergence_deltas] else [])
                        @ (if verbose self1 then [Printed convergence_deltas] else []));
                 w3 = foldl (\<lambda>w h. remove h w) (w1\<lparr>modules := ms2\<rparr>) (handles self1)
             in (case body of Inl e \<Rightarrow> Inl e | Inr (gradients, convergence_deltas) \<Rightarrow> Inr gradients,
                 self1, w3, events)))))"


section \<open>The batched driver\<close>

text \<open>
  The references are a tensor of shape \<open>(N, R, alphabet, length)\<close> or a function. The
  function is called with a seed (\<^verbatim>\<open>random_state=...\<close>) or without one; without a seed it
  draws from a random state \<open>'g\<close> that it hands back changed. Either way it returns a
  tensor of shape (examples, n, alphabet, length).
\<close>

datatype 'g reference_source =
    Reference_tensor tensor4
  | Reference_function "tensor3 \<Rightarrow> nat \<Rightarrow> int \<Rightarrow> tensor4" "'g \<Rightarrow> tensor3 \<Rightarrow> nat \<Rightarrow> tensor4 \<times> 'g"

datatype seed = No_seed | Int_seed int | RandomState_object

text \<open>
  The arguments of \<^verbatim>\<open>deep_lift_shap\<close>. The model is the \<open>world\<close> the call runs in;
  \<^verbatim>\<open>args\<close> is \<^verbatim>\<open>None\<close>; \<^verbatim>\<open>device\<close> and \<^verbatim>\<open>verbose\<close> (the progress bar) have no part in the
  result.
\<close>

record 'g arguments =
  X :: tensor3
  target :: int
  batch_size :: int
  references :: "'g reference_source"
  n_shuffles :: nat
  return_references :: bool
  hypothetical :: bool
  warning_threshold :: real
  additional_nonlinear_ops :: "(module_type \<Rightarrow> rule option) option"
  print_convergence_deltas :: bool
  raw_outputs :: bool
  random_state :: seed

text \<open>
  An entry of the list \<^verbatim>\<open>attributions\<close>: the mean over the references, or with
  \<^verbatim>\<open>raw_outputs\<close> the stacked multipliers of one example.
\<close>

datatype chunk = Mean tensor2 | Stack tensor3

text \<open>
  The local variables of the loop, under their names (\<open>attr'\<close> and \<open>references'\<close> for
  \<^verbatim>\<open>attr_\<close> and \<^verbatim>\<open>references_\<close>), the model, the random state and the warnings and
  printouts so far.
\<close>

record 'g locals =
  Xi :: "nat list"
  rj :: "nat list"
  attr' :: "tensor2 list"
  attributions :: "chunk list"
  references' :: "tensor2 list"
  z :: nat
  model :: world
  rng :: 'g
  events :: "event list"

text \<open>\<^verbatim>\<open>references.shape[1]\<close> for a tensor, else the argument \<^verbatim>\<open>n_shuffles\<close>.\<close>

definition shuffles :: "'g arguments \<Rightarrow> nat" where
  "shuffles a =
     (case references a of
        Reference_tensor t \<Rightarrow> (case t of [] \<Rightarrow> 0 | r # _ \<Rightarrow> length r)
      | Reference_function seeded unseeded \<Rightarrow> n_shuffles a)"

text \<open>\<^verbatim>\<open>t[:, 0]\<close> on a tensor with four axes.\<close>

definition first_of_each :: "tensor4 \<Rightarrow> error + tensor3" where
  "first_of_each t = (if list_all (\<lambda>r. r \<noteq> []) t then Inr (map hd t) else Inl IndexError)"

fun cat_first_of_each :: "tensor4 list \<Rightarrow> error + tensor3" where
  "cat_first_of_each [] = Inr []"
| "cat_first_of_each (t # ts) =
     (case first_of_each t of
        Inl e \<Rightarrow> Inl e
      | Inr r \<Rightarrow> (case cat_first_of_each ts of Inl e \<Rightarrow> Inl e | Inr rs \<Rightarrow> Inr (r @ rs)))"

text \<open>The references of one batch, and the random state after drawing them.\<close>

definition batch_references ::
  "'g arguments \<Rightarrow> nat list \<Rightarrow> nat list \<Rightarrow> tensor3 \<Rightarrow> 'g \<Rightarrow> error + tensor3 \<times> 'g" where
  "batch_references a Xi' rj' X' g =
     (case references a of
        Reference_tensor t \<Rightarrow>
          if list_all (\<lambda>(i, j). i < length t \<and> j < length (t ! i)) (zip Xi' rj')
          then Inr (map2 (\<lambda>i j. t ! i ! j) Xi' rj', g)
          else Inl IndexError
      | Reference_function seeded unseeded \<Rightarrow>
          (case random_state a of
             No_seed \<Rightarrow>
               (case unseeded g X' 1 of (r, g') \<Rightarrow>
                  (case first_of_each r of Inl e \<Rightarrow> Inl e | Inr r0 \<Rightarrow> Inr (r0, g')))
           | Int_seed s \<Rightarrow>
               (case cat_first_of_each (map2 (\<lambda>x j. seeded [x] 1 (s + int j)) X' rj') of
                  Inl e \<Rightarrow> Inl e
                | Inr r0 \<Rightarrow> Inr (r0, g))
           | RandomState_object \<Rightarrow> Inl TypeError))"

definition add2 :: "tensor2 \<Rightarrow> tensor2 \<Rightarrow> tensor2" where
  "add2 s t = map2 (map2 (+)) s t"

text \<open>\<^verbatim>\<open>torch.stack(ts).mean(dim=0)\<close> for a list of tensors of one shape.\<close>

definition mean_dim0 :: "tensor2 list \<Rightarrow> tensor2" where
  "mean_dim0 ts =
     (case ts of
        [] \<Rightarrow> []
      | t # ts' \<Rightarrow> map (map (\<lambda>v. v / real (length ts))) (foldl add2 t ts'))"

text \<open>
  The loop \<^verbatim>\<open>while len(attr_) >= n_shuffles\<close>. Its body runs only inside the loop over the
  pairs, where \<open>n = N * n_shuffles\<close> is positive and so is \<open>n_shuffles\<close>; the guard says so,
  which makes every round shorten \<open>attr'\<close>.
\<close>

function drain :: "'g arguments \<Rightarrow> nat \<Rightarrow> 'g locals \<Rightarrow> error + 'g locals" where
  "drain a R st =
     (if 0 < R \<and> R \<le> length (attr' st) then
        (let attr_chunk = take R (attr' st) in
         if raw_outputs a then
           drain a R (st\<lparr>attributions := attributions st @ [Stack attr_chunk],
                         attr' := drop R (attr' st), z := z st + 1\<rparr>)
         else if hypothetical a then
           drain a R (st\<lparr>attributions := attributions st @ [Mean (mean_dim0 attr_chunk)],
                         attr' := drop R (attr' st), z := z st + 1\<rparr>)
         else if z st < length (X a) then
           drain a R (st\<lparr>attributions :=
                           attributions st @ [Mean (mul2 (mean_dim0 attr_chunk) (X a ! z st))],
                         attr' := drop R (attr' st), z := z st + 1\<rparr>)
         else Inl IndexError)
      else Inr st)"
  by pat_completeness auto
termination
  by (relation "measure (\<lambda>(a, R, st). length (attr' st))") auto

text \<open>One compute batch: the body of \<^verbatim>\<open>if len(Xi) == batch_size or i == (n-1)\<close>.\<close>

definition run_batch :: "'g arguments \<Rightarrow> nat \<Rightarrow> 'g locals \<Rightarrow> error + 'g locals" where
  "run_batch a R st =
     (let X' = map (\<lambda>i. X a ! i) (Xi st) in
      case batch_references a (Xi st) (rj st) X' (rng st) of
        Inl e \<Rightarrow> Inl e
      | Inr (references0, g') \<Rightarrow>
         (case attribute
                 (DeepLiftShap_init (additional_nonlinear_ops a) (1 / 10 ^ 10)
                    (warning_threshold a) (print_convergence_deltas a))
                 (model st) X' references0 (target a) of
            (Inl e, _) \<Rightarrow> Inl e
          | (Inr multipliers, self', w', evs) \<Rightarrow>
             (case (if raw_outputs a then Inr multipliers
                    else (case hypothetical_attributions (Tuple [Tensor multipliers])
                                 (Tuple [Tensor X']) (Tuple [Tensor references0]) of
                            Inl e \<Rightarrow> Inl e
                          | Inr res \<Rightarrow> the_tensor res)) of
                Inl e \<Rightarrow> Inl e
              | Inr multipliers' \<Rightarrow>
                 (case drain a R (st\<lparr>attr' := attr' st @ multipliers', model := w', rng := g',
                                       events := events st @ evs\<rparr>) of
                    Inl e \<Rightarrow> Inl e
                  | Inr st' \<Rightarrow>
                      Inr (st'\<lparr>references' :=
                                 (if return_references a then references' st' @ references0
                                  else references' st'),
                               Xi := [], rj := []\<rparr>)))))"

text \<open>The loop \<^verbatim>\<open>for i in trange(n)\<close> over the remaining values of \<open>i\<close>.\<close>

fun pairs_loop :: "'g arguments \<Rightarrow> nat \<Rightarrow> nat \<Rightarrow> nat list \<Rightarrow> 'g locals \<Rightarrow> error + 'g locals" where
  "pairs_loop a R n [] st = Inr st"
| "pairs_loop a R n (i # rest) st =
     (let st1 = st\<lparr>Xi := Xi st @ [i div R], rj := rj st @ [i mod R]\<rparr>
      in if int (length (Xi st1)) = batch_size a \<or> i = n - 1
         then (case run_batch a R st1 of Inl e \<Rightarrow> Inl e | Inr st2 \<Rightarrow> pairs_loop a R n rest st2)
         else pairs_loop a R n rest st1)"

text \<open>\<^verbatim>\<open>torch.stack(attributions)\<close>, which refuses the empty list.\<close>

datatype stacked = Attributions tensor3 | Multipliers tensor4

fun the_mean :: "chunk \<Rightarrow> tensor2 option" where
  "the_mean (Mean t) = Some t"
| "the_mean (Stack t) = None"

fun the_stack :: "chunk \<Rightarrow> tensor3 option" where
  "the_stack (Stack t) = Some t"
| "the_stack (Mean t) = None"

definition stack :: "chunk list \<Rightarrow> error + stacked" where
  "stack cs =
     (if cs = [] then Inl (RuntimeError ''stack expects a non-empty TensorList'')
      else if list_all (\<lambda>c. the_mean c \<noteq> None) cs then Inr (Attributions (map (the \<circ> the_mean) cs))
      else if list_all (\<lambda>c. the_stack c \<noteq> None) cs then Inr (Multipliers (map (the \<circ> the_stack) cs))
      else Inl (RuntimeError ''stack expects each tensor to be equal size''))"

text \<open>\<^verbatim>\<open>torch.cat(references_).reshape(X.shape[0], n_shuffles, *X.shape[1:])\<close>.\<close>

definition reshape_references :: "nat \<Rightarrow> nat \<Rightarrow> tensor2 list \<Rightarrow> tensor4" where
  "reshape_references N R rs = map (\<lambda>i. take R (drop (i * R) rs)) [0 ..< N]"

text \<open>
  \<^verbatim>\<open>deep_lift_shap\<close> returns the stacked attributions and, when asked, the references; the
  embedding adds the model, the random state and the warnings and printouts it leaves.
\<close>

definition deep_lift_shap ::
  "'g arguments \<Rightarrow> world \<Rightarrow> 'g \<Rightarrow> error + (stacked \<times> tensor4 option) \<times> world \<times> 'g \<times> event list" where
  "deep_lift_shap a w g =
     (let R = shuffles a;
          n = length (X a) * R
      in case pairs_loop a R n [0 ..< n]
                \<lparr>Xi = [], rj = [], attr' = [], attributions = [], references' = [], z = 0,
                 model = w, rng = g, events = []\<rparr> of
           Inl e \<Rightarrow> Inl e
         | Inr st \<Rightarrow>
            (case stack (attributions st) of
               Inl e \<Rightarrow> Inl e
             | Inr t \<Rightarrow>
                 Inr ((t, if return_references a
                          then Some (reshape_references (length (X a)) R (references' st))
                          else None),
                      model st, rng st, events st)))"


section \<open>Notions for stating the properties\<close>

text \<open>The three hook dictionaries of a module, and the ids that occur in them.\<close>

definition hooks_of :: "nn_module \<Rightarrow> (nat \<times> hook) list \<times> (nat \<times> hook) list \<times> (nat \<times> hook) list" where
  "hooks_of m = (forward_hooks m, forward_pre_hooks m, backward_hooks m)"

definition hook_ids :: "nn_module \<Rightarrow> nat set" where
  "hook_ids m = fst ` (set (forward_hooks m) \<union> set (forward_pre_hooks m) \<union> set (backward_hooks m))"

text \<open>
  What removing the handles \<open>hs\<close> does to the module at position \<open>j\<close>: a handle acts on
  the module it was registered on.
\<close>

definition strip_handles :: "nat \<Rightarrow> handle list \<Rightarrow> nn_module \<Rightarrow> nn_module" where
  "strip_handles j hs m = foldl (\<lambda>m (i, d, k). if i = j then remove_hook d k m else m) m hs"

text \<open>
  The handles of the engine account for every hook that the modules of \<open>w\<close> carry beyond
  those of \<open>w0\<close>: removing the handles gives back the hooks of \<open>w0\<close>, and the counter is
  ahead of every id in use.
\<close>

definition handles_account :: "world \<Rightarrow> DeepLiftShap \<times> world \<Rightarrow> bool" where
  "handles_account w0 sw \<longleftrightarrow>
     (case sw of (self, w) \<Rightarrow>
        length (modules w) = length (modules w0)
        \<and> (\<forall>j<length (modules w). \<forall>k\<in>hook_ids (modules w ! j). k < next_id w)
        \<and> (\<forall>(i, d, k)\<in>set (handles self). k < next_id w)
        \<and> (\<forall>j<length (modules w).
              hooks_of (strip_handles j (handles self) (modules w ! j)) = hooks_of (modules w0 ! j)))"
section \<open>Properties of the projector\<close>

lemma is_tensor3_shape3:
  "is_tensor3 B A L t \<Longrightarrow> 0 < B \<Longrightarrow> 0 < A \<Longrightarrow> shape3 t = (B, A, L)"
  by (cases t; cases "hd t") (auto simp: is_tensor3_def shape3_def)

lemma length_sum_rows:
  "list_all (\<lambda>c. length c = L) m \<Longrightarrow> length (foldr (map2 (+)) m (replicate L (0::real))) = L"
  by (induction m) auto

lemma nth_sum_rows:
  "list_all (\<lambda>c. length c = L) m \<Longrightarrow> p < L \<Longrightarrow>
   foldr (map2 (+)) m (replicate L (0::real)) ! p = (\<Sum>a<length m. m ! a ! p)"
proof (induction m)
  case Nil
  then show ?case by simp
next
  case (Cons c m)
  then have "foldr (map2 (+)) (c # m) (replicate L 0) ! p
      = c ! p + (\<Sum>a<length m. m ! a ! p)"
    by (simp add: length_sum_rows)
  also have "\<dots> = (\<Sum>a<length (c # m). (c # m) ! a ! p)"
    by (simp add: sum.lessThan_Suc_shift del: sum.lessThan_Suc)
  finally show ?case .
qed

lemma is_tensor3_nth:
  "is_tensor3 B A L t \<Longrightarrow> b < B \<Longrightarrow> length (t ! b) = A \<and> list_all (\<lambda>c. length c = L) (t ! b)"
  by (auto simp: is_tensor3_def list_all_length)

lemma is_tensor3_nth_nth:
  "is_tensor3 B A L t \<Longrightarrow> b < B \<Longrightarrow> a < A \<Longrightarrow> length (t ! b ! a) = L"
  by (auto simp: is_tensor3_def list_all_length)

lemma is_tensor3_zeros_like: "is_tensor3 B A L t \<Longrightarrow> is_tensor3 B A L (zeros_like t)"
  by (auto simp: is_tensor3_def zeros_like_def list_all_length)

lemma is_tensor3_set_col:
  "is_tensor3 B A L t \<Longrightarrow> length v = B \<Longrightarrow> list_all (\<lambda>c. length c = L) v \<Longrightarrow>
   is_tensor3 B A L (set_col i v t)"
  by (cases "i < A") (auto simp: is_tensor3_def set_col_def list_all_length nth_list_update)


lemma foldl_set_col:
  assumes "is_tensor3 B A L t0" "\<And>i. i < n \<Longrightarrow> length (f i) = B \<and> list_all (\<lambda>c. length c = L) (f i)"
    "n \<le> A"
  shows "is_tensor3 B A L (foldl (\<lambda>t i. set_col i (f i) t) t0 [0..<n]) \<and>
    (\<forall>b<B. \<forall>s<A. foldl (\<lambda>t i. set_col i (f i) t) t0 [0..<n] ! b ! s
        = (if s < n then f s ! b else t0 ! b ! s))"
  using assms
proof (induction n)
  case 0
  then show ?case by simp
next
  case (Suc n)
  let ?t = "foldl (\<lambda>t i. set_col i (f i) t) t0 [0..<n]"
  have IH: "is_tensor3 B A L ?t" "\<forall>b<B. \<forall>s<A. ?t ! b ! s = (if s < n then f s ! b else t0 ! b ! s)"
    using Suc by auto
  have fn: "length (f n) = B" "list_all (\<lambda>c. length c = L) (f n)"
    using Suc.prems(2)[of n] by auto
  have 1: "is_tensor3 B A L (set_col n (f n) ?t)"
    using IH(1) fn by (rule is_tensor3_set_col)
  have 2: "set_col n (f n) ?t ! b ! s = (if s < Suc n then f s ! b else t0 ! b ! s)"
    if "b < B" "s < A" for b s
  proof -
    have "length ?t = B" "length (?t ! b) = A"
      using IH(1) that is_tensor3_nth[of B A L ?t b] by (auto simp: is_tensor3_def)
    then show ?thesis
      using that fn IH(2) Suc.prems(3)
      by (auto simp: set_col_def nth_list_update less_Suc_eq)
  qed
  show ?case using 1 2 by simp
qed

lemma is_tensor3_shape3_gen:
  assumes wf: "is_tensor3 B A L t"
  shows "shape3 t = (B, if B = 0 then 0 else A, if B = 0 \<or> A = 0 then 0 else L)"
proof (cases t)
  case Nil
  then show ?thesis using wf by (auto simp: is_tensor3_def shape3_def)
next
  case (Cons m t')
  show ?thesis
  proof (cases m)
    case Nil
    have "concat t = []" using wf Cons Nil
      by (auto simp: is_tensor3_def list_all_iff)
    moreover have "length t = B" "A = 0" "t \<noteq> []"
      using wf Cons Nil by (auto simp: is_tensor3_def)
    ultimately show ?thesis
      unfolding shape3_def by (simp only: list.case list.simps split: list.splits) auto
  next
    case (Cons c m')
    then show ?thesis using wf \<open>t = m # t'\<close> by (auto simp: is_tensor3_def shape3_def)
  qed
qed

lemma is_tensor3_sub3:
  "is_tensor3 B A L s \<Longrightarrow> is_tensor3 B A L t \<Longrightarrow> is_tensor3 B A L (sub3 s t)"
  by (auto simp: is_tensor3_def sub3_def list_all_length)

lemma is_tensor3_mul3:
  "is_tensor3 B A L s \<Longrightarrow> is_tensor3 B A L t \<Longrightarrow> is_tensor3 B A L (mul3 s t)"
  by (auto simp: is_tensor3_def mul3_def list_all_length)

lemma is_tensor3_fill_col:
  "is_tensor3 B A L t \<Longrightarrow> is_tensor3 B A L (fill_col i c t)"
  by (cases "i < A") (auto simp: is_tensor3_def fill_col_def list_all_length nth_list_update)

lemma nth_sub3:
  "is_tensor3 B A L s \<Longrightarrow> is_tensor3 B A L t \<Longrightarrow> b < B \<Longrightarrow> a < A \<Longrightarrow> p < L \<Longrightarrow>
   sub3 s t ! b ! a ! p = s ! b ! a ! p - t ! b ! a ! p"
  by (auto simp: is_tensor3_def sub3_def list_all_length)

lemma nth_mul3:
  "is_tensor3 B A L s \<Longrightarrow> is_tensor3 B A L t \<Longrightarrow> b < B \<Longrightarrow> a < A \<Longrightarrow> p < L \<Longrightarrow>
   mul3 s t ! b ! a ! p = s ! b ! a ! p * t ! b ! a ! p"
  by (auto simp: is_tensor3_def mul3_def list_all_length)

lemma nth_fill_col_zeros:
  "is_tensor3 B A L t \<Longrightarrow> b < B \<Longrightarrow> a < A \<Longrightarrow> p < L \<Longrightarrow> i < A \<Longrightarrow>
   fill_col i 1 (zeros_like t) ! b ! a ! p = (if a = i then 1 else 0)"
  by (auto simp: is_tensor3_def fill_col_def zeros_like_def list_all_length nth_list_update)

lemma sum_dim1_props:
  assumes "is_tensor3 B A L t" "0 < A"
  shows "length (sum_dim1 t) = B" "list_all (\<lambda>c. length c = L) (sum_dim1 t)"
    "b < B \<Longrightarrow> p < L \<Longrightarrow> sum_dim1 t ! b ! p = (\<Sum>a<A. t ! b ! a ! p)"
proof -
  show "length (sum_dim1 t) = B" using assms by (simp add: sum_dim1_def is_tensor3_def)
  have L: "B \<noteq> 0 \<Longrightarrow> snd (snd (shape3 t)) = L"
    using is_tensor3_shape3_gen[OF assms(1)] assms(2) by simp
  show "list_all (\<lambda>c. length c = L) (sum_dim1 t)"
  proof (cases "B = 0")
    case True
    then show ?thesis using assms by (simp add: sum_dim1_def is_tensor3_def)
  next
    case False
    then show ?thesis using assms L
      by (auto simp: sum_dim1_def is_tensor3_def list_all_iff intro!: length_sum_rows)
  qed
  show "sum_dim1 t ! b ! p = (\<Sum>a<A. t ! b ! a ! p)" if "b < B" "p < L"
  proof -
    have "B \<noteq> 0" using that by simp
    moreover have "length (t ! b) = A" "list_all (\<lambda>c. length c = L) (t ! b)"
      using is_tensor3_nth[OF assms(1) that(1)] by auto
    ultimately show ?thesis
      using that assms L by (simp add: sum_dim1_def is_tensor3_def nth_sum_rows)
  qed
qed


lemma projected_contribs_correct:
  assumes m: "is_tensor3 B A L m" and x: "is_tensor3 B A L x" and r: "is_tensor3 B A L r"
  shows "is_tensor3 B A L (projected_contribs m x r) \<and>
    (\<forall>b<B. \<forall>s<A. \<forall>p<L.
      projected_contribs m x r ! b ! s ! p
        = (\<Sum>a<A. ((if a = s then 1 else 0) - r ! b ! a ! p) * m ! b ! a ! p))"
proof (cases "B = 0")
  case True
  then have "x = []" "r = []" using x r by (auto simp: is_tensor3_def)
  then show ?thesis
    using True by (simp add: projected_contribs_def shape3_def zeros_like_def is_tensor3_def)
next
  case False
  define f where "f i = sum_dim1 (mul3 (sub3 (fill_col i 1 (zeros_like x)) r) m)" for i
  have step: "project_symbol m x r = (\<lambda>t i. set_col i (f i) t)"
    by (intro ext) (simp add: project_symbol_def f_def)
  have contribs: "is_tensor3 B A L (mul3 (sub3 (fill_col i 1 (zeros_like x)) r) m)" for i
    by (intro is_tensor3_mul3 is_tensor3_sub3 is_tensor3_fill_col is_tensor3_zeros_like x r m)
  have z: "is_tensor3 B A L (zeros_like r)"
    using r by (rule is_tensor3_zeros_like)
  from False have A: "fst (snd (shape3 x)) = A"
    using is_tensor3_shape3_gen[OF x] by simp
  have fprops: "length (f i) = B \<and> list_all (\<lambda>c. length c = L) (f i)" if "i < A" for i
    using sum_dim1_props(1,2)[OF contribs[of i]] that by (simp add: f_def)
  have inv: "is_tensor3 B A L (foldl (\<lambda>t i. set_col i (f i) t) (zeros_like r) [0..<A]) \<and>
    (\<forall>b<B. \<forall>s<A. foldl (\<lambda>t i. set_col i (f i) t) (zeros_like r) [0..<A] ! b ! s
        = (if s < A then f s ! b else zeros_like r ! b ! s))"
    by (rule foldl_set_col[OF z]) (use fprops in auto)
  have eq: "projected_contribs m x r = foldl (\<lambda>t i. set_col i (f i) t) (zeros_like r) [0..<A]"
    by (simp add: projected_contribs_def step A)
  have val: "projected_contribs m x r ! b ! s ! p
      = (\<Sum>a<A. ((if a = s then 1 else 0) - r ! b ! a ! p) * m ! b ! a ! p)"
    if "b < B" "s < A" "p < L" for b s p
  proof -
    have "projected_contribs m x r ! b ! s ! p = f s ! b ! p"
      using inv eq that by simp
    also have "\<dots> = (\<Sum>a<A. mul3 (sub3 (fill_col s 1 (zeros_like x)) r) m ! b ! a ! p)"
      using sum_dim1_props(3)[OF contribs[of s], where b=b and p=p] that by (simp add: f_def)
    also have "\<dots> = (\<Sum>a<A. ((if a = s then 1 else 0) - r ! b ! a ! p) * m ! b ! a ! p)"
    proof (rule sum.cong)
      fix a assume "a \<in> {..<A}"
      then have a: "a < A" by simp
      have fz: "is_tensor3 B A L (fill_col s 1 (zeros_like x))"
        by (intro is_tensor3_fill_col is_tensor3_zeros_like x)
      show "mul3 (sub3 (fill_col s 1 (zeros_like x)) r) m ! b ! a ! p
          = ((if a = s then 1 else 0) - r ! b ! a ! p) * m ! b ! a ! p"
        using nth_mul3[OF is_tensor3_sub3[OF fz r] m that(1) a that(3)]
          nth_sub3[OF fz r that(1) a that(3)]
          nth_fill_col_zeros[OF x that(1) a that(3) that(2)]
        by simp
    qed simp
    finally show ?thesis .
  qed
  show ?thesis using inv eq val by simp
qed


text \<open>
  Claim C6. For multipliers, input and references of one shape \<open>(B, A, L)\<close>,
  \<^verbatim>\<open>hypothetical_attributions\<close> returns a one-element tuple of a tensor of that shape
  whose value at symbol \<open>s\<close> and position \<open>p\<close> is the sum over the alphabet axis of
  (indicator of \<open>s\<close> minus reference) times multiplier at \<open>p\<close>; and whenever some
  argument is not a one-element tuple of a tensor whose shape is the multipliers', the
  call raises a \<open>ValueError\<close>.
\<close>

theorem hypothetical_attributions_spec:
  "(is_tensor3 B A L m \<and> is_tensor3 B A L x \<and> is_tensor3 B A L r \<longrightarrow>
      (\<exists>out. hypothetical_attributions (Tuple [Tensor m]) (Tuple [Tensor x]) (Tuple [Tensor r])
               = Inr (Tuple [Tensor out])
         \<and> is_tensor3 B A L out
         \<and> (\<forall>b<B. \<forall>s<A. \<forall>p<L.
               out ! b ! s ! p
                 = (\<Sum>a<A. ((if a = s then 1 else 0) - r ! b ! a ! p) * m ! b ! a ! p))))
   \<and> (\<not> (\<exists>m' x' r'. mv = Tuple [Tensor m'] \<and> xv = Tuple [Tensor x'] \<and> rv = Tuple [Tensor r']
            \<and> shape3 x' = shape3 m' \<and> shape3 r' = shape3 m') \<longrightarrow>
        (\<exists>msg. hypothetical_attributions mv xv rv = Inl (ValueError msg)))"
proof (intro conjI impI)
  assume wf: "is_tensor3 B A L m \<and> is_tensor3 B A L x \<and> is_tensor3 B A L r"
  then have sh: "shape3 x = shape3 m" "shape3 r = shape3 m"
    by (auto simp: is_tensor3_shape3_gen)
  from wf have "is_tensor3 B A L (projected_contribs m x r) \<and>
    (\<forall>b<B. \<forall>s<A. \<forall>p<L.
      projected_contribs m x r ! b ! s ! p
        = (\<Sum>a<A. ((if a = s then 1 else 0) - r ! b ! a ! p) * m ! b ! a ! p))"
    by (intro projected_contribs_correct) simp_all
  with sh show "\<exists>out. hypothetical_attributions (Tuple [Tensor m]) (Tuple [Tensor x])
        (Tuple [Tensor r]) = Inr (Tuple [Tensor out])
      \<and> is_tensor3 B A L out
      \<and> (\<forall>b<B. \<forall>s<A. \<forall>p<L.
            out ! b ! s ! p
              = (\<Sum>a<A. ((if a = s then 1 else 0) - r ! b ! a ! p) * m ! b ! a ! p))"
    by (simp add: hypothetical_attributions_def)
next
  assume bad: "\<not> (\<exists>m' x' r'. mv = Tuple [Tensor m'] \<and> xv = Tuple [Tensor x']
      \<and> rv = Tuple [Tensor r'] \<and> shape3 x' = shape3 m' \<and> shape3 r' = shape3 m')"
  have tt: "(\<exists>msg. the_tensor v = Inl (ValueError msg)) \<or> (\<exists>t. v = Tuple [Tensor t])" for v
    by (cases v rule: the_tensor.cases) simp_all
  show "\<exists>msg. hypothetical_attributions mv xv rv = Inl (ValueError msg)"
    using tt[of mv] tt[of xv] tt[of rv] bad
    by (auto simp: hypothetical_attributions_def)
qed

theorem hypothetical_attributions_spec_witness:
  "is_tensor3 1 2 2 [[[3, 5], [7, 11]]] \<and> is_tensor3 1 2 2 [[[1, 0], [0, 1]]]
   \<and> is_tensor3 1 2 2 [[[0, 1], [1, 0]]]
   \<and> (\<exists>out. hypothetical_attributions (Tuple [Tensor [[[3, 5], [7, 11]]]])
          (Tuple [Tensor [[[1, 0], [0, 1]]]]) (Tuple [Tensor [[[0, 1], [1, 0]]]])
        = Inr (Tuple [Tensor out])
      \<and> out ! 0 ! 0 ! 0 = -4 \<and> out ! 0 ! 1 ! 0 = 0 \<and> out ! 0 ! 0 ! 1 = 0
      \<and> out ! 0 ! 1 ! 1 = 6)
   \<and> (\<exists>msg. hypothetical_attributions (Tuple [Tensor [[[3, 5], [7, 11]]]]) Object
          (Tuple [Tensor [[[0, 1], [1, 0]]]]) = Inl (ValueError msg))"
proof -
  have wf: "is_tensor3 1 2 2 [[[3, 5], [7, 11]]] \<and> is_tensor3 1 2 2 [[[1, 0], [0, 1]]]
      \<and> is_tensor3 1 2 2 [[[0, 1], [1, 0]]]"
    by (simp add: is_tensor3_def)
  have two: "{..<2::nat} = {0, 1}" by auto
  show ?thesis
    using wf hypothetical_attributions_spec[of 1 2 2 "[[[3, 5], [7, 11]]]"
        "[[[1, 0], [0, 1]]]" "[[[0, 1], [1, 0]]]" "Tuple [Tensor [[[3, 5], [7, 11]]]]" Object
        "Tuple [Tensor [[[0, 1], [1, 0]]]]"]
    by (auto simp: two)
qed


section \<open>Properties of the rescale rules\<close>

lemma nth_append_self:
  "i < 2 * length xs \<Longrightarrow> (xs @ xs) ! i = xs ! (i mod length xs)"
  by (cases "i < length xs") (auto simp: nth_append le_mod_geq)

lemma chunk2_even:
  "length t = 2 * B \<Longrightarrow> chunk2 t = (take B t, drop B t)"
  by (simp add: chunk2_def)

lemma is_tensor2_nth: "is_tensor2 n w t \<Longrightarrow> i < n \<Longrightarrow> length (t ! i) = w"
  by (auto simp: is_tensor2_def list_all_length)

lemma is_tensor2_take: "is_tensor2 (2 * B) w t \<Longrightarrow> is_tensor2 B w (take B t)"
  by (auto simp: is_tensor2_def list_all_length)

lemma is_tensor2_drop: "is_tensor2 (2 * B) w t \<Longrightarrow> is_tensor2 B w (drop B t)"
  by (auto simp: is_tensor2_def list_all_length)

lemma is_tensor2_append:
  "is_tensor2 n w s \<Longrightarrow> is_tensor2 m w t \<Longrightarrow> is_tensor2 (n + m) w (s @ t)"
  by (auto simp: is_tensor2_def)

lemma is_tensor2_sub2: "is_tensor2 n w s \<Longrightarrow> is_tensor2 n w t \<Longrightarrow> is_tensor2 n w (sub2 s t)"
  by (auto simp: is_tensor2_def sub2_def list_all_length)

lemma is_tensor2_mul2: "is_tensor2 n w s \<Longrightarrow> is_tensor2 n w t \<Longrightarrow> is_tensor2 n w (mul2 s t)"
  by (auto simp: is_tensor2_def mul2_def list_all_length)

lemma is_tensor2_div2: "is_tensor2 n w s \<Longrightarrow> is_tensor2 n w t \<Longrightarrow> is_tensor2 n w (div2 s t)"
  by (auto simp: is_tensor2_def div2_def list_all_length)

lemma nth_sub2:
  "is_tensor2 n w s \<Longrightarrow> is_tensor2 n w t \<Longrightarrow> i < n \<Longrightarrow> j < w \<Longrightarrow>
   sub2 s t ! i ! j = s ! i ! j - t ! i ! j"
  by (auto simp: is_tensor2_def sub2_def list_all_length)

lemma nth_mul2:
  "is_tensor2 n w s \<Longrightarrow> is_tensor2 n w t \<Longrightarrow> i < n \<Longrightarrow> j < w \<Longrightarrow>
   mul2 s t ! i ! j = s ! i ! j * t ! i ! j"
  by (auto simp: is_tensor2_def mul2_def list_all_length)

lemma nth_div2:
  "is_tensor2 n w s \<Longrightarrow> is_tensor2 n w t \<Longrightarrow> i < n \<Longrightarrow> j < w \<Longrightarrow>
   div2 s t ! i ! j = s ! i ! j / t ! i ! j"
  by (auto simp: is_tensor2_def div2_def list_all_length)

lemma where2_props:
  assumes "is_tensor2 n w d" "is_tensor2 n w s" "is_tensor2 n w t"
  shows "is_tensor2 n w (where2 (abs_less2 d e) s t)"
    and "i < n \<Longrightarrow> j < w \<Longrightarrow>
      where2 (abs_less2 d e) s t ! i ! j = (if \<bar>d ! i ! j\<bar> < e then s ! i ! j else t ! i ! j)"
  using assms by (auto simp: is_tensor2_def where2_def abs_less2_def list_all_length)

text \<open>The difference of the two halves, repeated for both halves.\<close>

lemma delta_props:
  assumes t: "is_tensor2 (2 * B) w t"
  shows "is_tensor2 (2 * B) w
      (sub2 (fst (chunk2 t)) (snd (chunk2 t)) @ sub2 (fst (chunk2 t)) (snd (chunk2 t)))"
    and "i < 2 * B \<Longrightarrow> j < w \<Longrightarrow>
      (sub2 (fst (chunk2 t)) (snd (chunk2 t)) @ sub2 (fst (chunk2 t)) (snd (chunk2 t))) ! i ! j
        = t ! (i mod B) ! j - t ! (B + i mod B) ! j"
proof -
  have len: "length t = 2 * B" using t by (simp add: is_tensor2_def)
  have ch: "chunk2 t = (take B t, drop B t)" using len by (rule chunk2_even)
  have d: "is_tensor2 B w (sub2 (take B t) (drop B t))"
    using t by (intro is_tensor2_sub2 is_tensor2_take is_tensor2_drop)
  show "is_tensor2 (2 * B) w
      (sub2 (fst (chunk2 t)) (snd (chunk2 t)) @ sub2 (fst (chunk2 t)) (snd (chunk2 t)))"
    using is_tensor2_append[OF d d] by (simp add: ch mult_2)
  show "(sub2 (fst (chunk2 t)) (snd (chunk2 t)) @ sub2 (fst (chunk2 t)) (snd (chunk2 t))) ! i ! j
        = t ! (i mod B) ! j - t ! (B + i mod B) ! j" if "i < 2 * B" "j < w"
  proof -
    have B: "0 < B" using that by simp
    then have m: "i mod B < B" by simp
    have l: "length (sub2 (take B t) (drop B t)) = B" using d by (simp add: is_tensor2_def)
    have "(sub2 (take B t) (drop B t) @ sub2 (take B t) (drop B t)) ! i
        = sub2 (take B t) (drop B t) ! (i mod B)"
      using nth_append_self[of i "sub2 (take B t) (drop B t)"] that l by simp
    moreover have "sub2 (take B t) (drop B t) ! (i mod B) ! j
        = take B t ! (i mod B) ! j - drop B t ! (i mod B) ! j"
      using t m that by (intro nth_sub2[where n=B and w=w] is_tensor2_take is_tensor2_drop)
    ultimately show ?thesis using m len by (simp add: ch)
  qed
qed

lemma nonlinear_props:
  assumes inp: "is_tensor2 (2 * B) W inp" and outp: "is_tensor2 (2 * B) W outp"
    and gi: "is_tensor2 (2 * B) W gi" and go: "is_tensor2 (2 * B) W go"
  shows "is_tensor2 (2 * B) W (nonlinear inp outp gi go e)"
    and "i < 2 * B \<Longrightarrow> j < W \<Longrightarrow>
      nonlinear inp outp gi go e ! i ! j =
        (if \<bar>inp ! (i mod B) ! j - inp ! (B + i mod B) ! j\<bar> < e then gi ! i ! j
         else go ! i ! j * ((outp ! (i mod B) ! j - outp ! (B + i mod B) ! j)
                             / (inp ! (i mod B) ! j - inp ! (B + i mod B) ! j)))"
proof -
  let ?din = "sub2 (fst (chunk2 inp)) (snd (chunk2 inp)) @ sub2 (fst (chunk2 inp)) (snd (chunk2 inp))"
  let ?dout = "sub2 (fst (chunk2 outp)) (snd (chunk2 outp)) @ sub2 (fst (chunk2 outp)) (snd (chunk2 outp))"
  have eq: "nonlinear inp outp gi go e = where2 (abs_less2 ?din e) gi (mul2 go (div2 ?dout ?din))"
    by (simp add: nonlinear_def Let_def)
  have din: "is_tensor2 (2 * B) W ?din" and dout: "is_tensor2 (2 * B) W ?dout"
    using delta_props(1)[OF inp] delta_props(1)[OF outp] by simp_all
  have dv: "is_tensor2 (2 * B) W (div2 ?dout ?din)"
    using dout din by (rule is_tensor2_div2)
  have ml: "is_tensor2 (2 * B) W (mul2 go (div2 ?dout ?din))"
    using go dv by (rule is_tensor2_mul2)
  show "is_tensor2 (2 * B) W (nonlinear inp outp gi go e)"
    unfolding eq using din gi ml by (rule where2_props(1))
  show "nonlinear inp outp gi go e ! i ! j =
        (if \<bar>inp ! (i mod B) ! j - inp ! (B + i mod B) ! j\<bar> < e then gi ! i ! j
         else go ! i ! j * ((outp ! (i mod B) ! j - outp ! (B + i mod B) ! j)
                             / (inp ! (i mod B) ! j - inp ! (B + i mod B) ! j)))"
    if "i < 2 * B" "j < W"
    unfolding eq
    using where2_props(2)[OF din gi ml that] nth_mul2[OF go dv that] nth_div2[OF dout din that]
      delta_props(2)[OF inp that] delta_props(2)[OF outp that]
    by simp
qed

lemma sum_list_shift: "sum_list (map (\<lambda>g. g - c) xs) = sum_list xs - real (length xs) * (c::real)"
  by (induction xs) (auto simp: algebra_simps)

lemma sum_all_shift:
  "sum_all (map (map (\<lambda>g. g - c)) t) = sum_all t - real (numel t) * c"
  by (induction t) (auto simp: sum_all_def numel_def sum_list_shift algebra_simps)

lemma sum_all_numel_0: "numel t = 0 \<Longrightarrow> sum_all t = 0"
  unfolding sum_all_def numel_def by (metis length_0_conv sum_list.Nil)

lemma numel_tensor2: "is_tensor2 n w t \<Longrightarrow> numel t = n * w"
  unfolding numel_def is_tensor2_def
  by (induction t arbitrary: n) (auto simp: )


text \<open>
  Claim C3. For cached input and output, incoming \<open>grad_input\<close> and \<open>grad_output\<close> of one
  shape \<open>(2B, W)\<close> (the example's half before the reference's half), \<^verbatim>\<open>_nonlinear\<close> returns
  a tensor of that shape. At a position where the absolute difference of the two input
  halves is below \<open>eps\<close> its value is the incoming \<open>grad_input\<close> unchanged; elsewhere it
  is \<open>grad_output\<close> times the quotient of the output difference by the input difference.
  The differences of row \<open>i mod B\<close> serve both halves.
\<close>

theorem nonlinear_rule:
  assumes "is_tensor2 (2 * B) W inp" and "is_tensor2 (2 * B) W outp"
    and "is_tensor2 (2 * B) W gi" and "is_tensor2 (2 * B) W go"
  shows "is_tensor2 (2 * B) W (nonlinear inp outp gi go e) \<and>
    (\<forall>i<2 * B. \<forall>j<W.
      nonlinear inp outp gi go e ! i ! j =
        (if \<bar>inp ! (i mod B) ! j - inp ! (B + i mod B) ! j\<bar> < e then gi ! i ! j
         else go ! i ! j * ((outp ! (i mod B) ! j - outp ! (B + i mod B) ! j)
                             / (inp ! (i mod B) ! j - inp ! (B + i mod B) ! j))))"
  using nonlinear_props[OF assms] by blast

theorem nonlinear_rule_witness:
  "is_tensor2 (2 * 1) 2 [[3, 1], [1, 1]] \<and> is_tensor2 (2 * 1) 2 [[9, 1], [1, 1]]
   \<and> is_tensor2 (2 * 1) 2 [[10, 20], [30, 40]] \<and> is_tensor2 (2 * 1) 2 [[2, 3], [5, 7]]
   \<and> is_tensor2 (2 * 1) 2
        (nonlinear [[3, 1], [1, 1]] [[9, 1], [1, 1]] [[10, 20], [30, 40]] [[2, 3], [5, 7]] (1 / 1000))
   \<and> nonlinear [[3, 1], [1, 1]] [[9, 1], [1, 1]] [[10, 20], [30, 40]] [[2, 3], [5, 7]] (1 / 1000)
         ! 0 ! 0 = 8
   \<and> nonlinear [[3, 1], [1, 1]] [[9, 1], [1, 1]] [[10, 20], [30, 40]] [[2, 3], [5, 7]] (1 / 1000)
         ! 1 ! 0 = 20
   \<and> nonlinear [[3, 1], [1, 1]] [[9, 1], [1, 1]] [[10, 20], [30, 40]] [[2, 3], [5, 7]] (1 / 1000)
         ! 0 ! 1 = 20
   \<and> nonlinear [[3, 1], [1, 1]] [[9, 1], [1, 1]] [[10, 20], [30, 40]] [[2, 3], [5, 7]] (1 / 1000)
         ! 1 ! 1 = 40"
proof -
  have wf: "is_tensor2 (2 * 1) 2 [[3, 1], [1, 1]]" "is_tensor2 (2 * 1) 2 [[9, 1], [1, 1]]"
    "is_tensor2 (2 * 1) 2 [[10, 20], [30, 40]]" "is_tensor2 (2 * 1) 2 [[2, 3], [5, 7]]"
    by (simp_all add: is_tensor2_def)
  note r = nonlinear_rule[OF wf, of "1 / 1000"]
  show ?thesis
    using wf r by simp
qed

text \<open>
  Claim C5. For tensors of one shape \<open>(2B, W)\<close>, \<^verbatim>\<open>_softmax\<close> first forms the tensor that
  \<^verbatim>\<open>_nonlinear\<close> returns (the same correction by input and output differences) and then
  subtracts from every element the sum over all elements divided by the element count,
  that is, the mean over all elements. The returned tensor sums to zero.
\<close>

theorem softmax_rule:
  assumes "is_tensor2 (2 * B) W inp" and "is_tensor2 (2 * B) W outp"
    and "is_tensor2 (2 * B) W gi" and "is_tensor2 (2 * B) W go"
  shows "softmax inp outp gi go e =
      map (map (\<lambda>g. g - sum_all (nonlinear inp outp gi go e)
                          / real (numel (nonlinear inp outp gi go e))))
        (nonlinear inp outp gi go e)
    \<and> is_tensor2 (2 * B) W (softmax inp outp gi go e)
    \<and> sum_all (softmax inp outp gi go e) = 0"
proof -
  let ?U = "nonlinear inp outp gi go e"
  have U: "is_tensor2 (2 * B) W ?U"
    using nonlinear_props(1)[OF assms] .
  have n: "numel gi = numel ?U"
    using U assms(3) by (simp add: numel_tensor2)
  have eq: "softmax inp outp gi go e = map (map (\<lambda>g. g - sum_all ?U / real (numel ?U))) ?U"
    by (simp add: softmax_def nonlinear_def Let_def n[unfolded nonlinear_def Let_def])
  have sh: "is_tensor2 (2 * B) W (softmax inp outp gi go e)"
    unfolding eq using U by (auto simp: is_tensor2_def list_all_length)
  have "sum_all (softmax inp outp gi go e) = 0"
    unfolding eq sum_all_shift by (cases "numel ?U = 0") (simp_all add: sum_all_numel_0)
  with eq sh show ?thesis by blast
qed

theorem softmax_rule_witness:
  "is_tensor2 (2 * 1) 2 [[3, 1], [1, 1]] \<and> is_tensor2 (2 * 1) 2 [[9, 1], [1, 1]]
   \<and> is_tensor2 (2 * 1) 2 [[10, 20], [30, 40]] \<and> is_tensor2 (2 * 1) 2 [[2, 3], [5, 7]]
   \<and> nonlinear [[3, 1], [1, 1]] [[9, 1], [1, 1]] [[10, 20], [30, 40]] [[2, 3], [5, 7]] (1 / 1000)
        = [[8, 20], [20, 40]]
   \<and> softmax [[3, 1], [1, 1]] [[9, 1], [1, 1]] [[10, 20], [30, 40]] [[2, 3], [5, 7]] (1 / 1000)
        = [[- 14, - 2], [- 2, 18]]
   \<and> sum_all
        (softmax [[3, 1], [1, 1]] [[9, 1], [1, 1]] [[10, 20], [30, 40]] [[2, 3], [5, 7]] (1 / 1000))
        = 0"
proof -
  have wf: "is_tensor2 (2 * 1) 2 [[3, 1], [1, 1]]" "is_tensor2 (2 * 1) 2 [[9, 1], [1, 1]]"
    "is_tensor2 (2 * 1) 2 [[10, 20], [30, 40]]" "is_tensor2 (2 * 1) 2 [[2, 3], [5, 7]]"
    by (simp_all add: is_tensor2_def)
  have U: "nonlinear [[3, 1], [1, 1]] [[9, 1], [1, 1]] [[10, 20], [30, 40]] [[2, 3], [5, 7]]
      (1 / 1000) = [[8, 20], [20, 40]]"
    by (simp add: nonlinear_def chunk2_def sub2_def div2_def mul2_def where2_def abs_less2_def)
  show ?thesis
    using wf softmax_rule[OF wf, of "1 / 1000"] U
    by (simp add: sum_all_def numel_def)
qed


section \<open>Properties of the max-pooling rule\<close>

subsection \<open>Unpooling\<close>

lemma length_unpool_fold:
  "length (foldl (\<lambda>out (i, v). out[i := v]) acc ivs) = length acc"
  by (induction ivs arbitrary: acc) auto

lemma length_unpool_row: "length (unpool_row L vals idx) = L"
  by (simp add: unpool_row_def length_unpool_fold)

lemma unpool_fold_notin:
  "p \<notin> fst ` set ivs \<Longrightarrow> foldl (\<lambda>out (i, v). out[i := v]) acc ivs ! p = acc ! p"
  by (induction ivs arbitrary: acc) auto

lemma sum_list_notin:
  "p \<notin> fst ` set ivs \<Longrightarrow> (\<Sum>(i, v)\<leftarrow>ivs. if i = p then v else (0::real)) = 0"
  by (induction ivs) (auto simp: image_iff)

lemma unpool_fold_distinct:
  "distinct (map fst ivs) \<Longrightarrow> p < length acc \<Longrightarrow> p \<notin> fst ` set ivs \<or> acc ! p = 0 \<Longrightarrow>
   foldl (\<lambda>out (i, v). out[i := (v::real)]) acc ivs ! p
     = (if p \<in> fst ` set ivs then (\<Sum>(i, v)\<leftarrow>ivs. if i = p then v else 0) else acc ! p)"
proof (induction ivs arbitrary: acc)
  case Nil
  then show ?case by simp
next
  case (Cons iv ivs)
  obtain i v where iv: "iv = (i, v)" by (cases iv)
  show ?case
  proof (cases "i = p")
    case True
    then have notin: "p \<notin> fst ` set ivs" using Cons.prems(1) iv by (auto simp: image_iff)
    have z: "(\<Sum>(i, v)\<leftarrow>ivs. if i = p then v else 0) = 0"
      using notin by (rule sum_list_notin)
    show ?thesis
      using True iv notin Cons.prems(2) z by (simp add: unpool_fold_notin)
  next
    case False
    have "foldl (\<lambda>out (i, v). out[i := v]) (acc[i := v]) ivs ! p
      = (if p \<in> fst ` set ivs then (\<Sum>(i, v)\<leftarrow>ivs. if i = p then v else 0) else acc[i := v] ! p)"
      using Cons.prems False iv by (intro Cons.IH) auto
    then show ?thesis using False iv by simp
  qed
qed

lemma sum_list_zip_nth:
  "length idx = length vals \<Longrightarrow>
   (\<Sum>(i, v)\<leftarrow>zip idx vals. if i = p then v else (0::real))
     = (\<Sum>w<length idx. if idx ! w = p then vals ! w else 0)"
proof (induction idx vals rule: list_induct2)
  case Nil
  then show ?case by simp
next
  case (Cons i idx v vals)
  then show ?case
    by (simp add: sum.lessThan_Suc_shift del: sum.lessThan_Suc cong: if_cong)
qed

lemma unpool_row_nth:
  assumes "distinct idx" "length idx = length vals" "p < L"
  shows "unpool_row L vals idx ! p = (\<Sum>w<length idx. if idx ! w = p then vals ! w else 0)"
proof -
  have d: "distinct (map fst (zip idx vals))" using assms by simp
  have "unpool_row L vals idx ! p
      = (if p \<in> fst ` set (zip idx vals)
         then (\<Sum>(i, v)\<leftarrow>zip idx vals. if i = p then v else 0) else replicate L 0 ! p)"
    unfolding unpool_row_def using assms(3) by (intro unpool_fold_distinct[OF d]) auto
  also have "\<dots> = (\<Sum>(i, v)\<leftarrow>zip idx vals. if i = p then v else 0)"
  proof (cases "p \<in> fst ` set (zip idx vals)")
    case True then show ?thesis by simp
  next
    case False
    then have "(\<Sum>(i, v)\<leftarrow>zip idx vals. if i = p then v else 0) = 0"
      by (rule sum_list_notin)
    then show ?thesis using False assms(3) by simp
  qed
  finally show ?thesis using sum_list_zip_nth[OF assms(2)] by simp
qed


subsection \<open>Pooling windows\<close>

lemma length_pool_indices:
  "length (pool_indices mp row) = pool_output_size mp (length row)"
  by (simp add: pool_indices_def)

lemma argmax_fold_mem:
  "foldl (\<lambda>best q. if (row::vec) ! q > row ! best then q else best) p ps \<in> set (p # ps)"
  by (induction ps arbitrary: p) (auto split: if_splits)

lemma argmax_mem: "ps \<noteq> [] \<Longrightarrow> argmax row ps \<in> set ps"
  using argmax_fold_mem by (cases ps) auto

lemma window_bounds:
  assumes "p \<in> set (window mp L ow)"
  shows "p < L" and "ow * stride mp \<le> p + padding mp"
    and "p + padding mp \<le> ow * stride mp + (kernel_size mp - 1) * dilation mp"
proof -
  from assms obtain j where j: "j < kernel_size mp"
    and p: "int p = int (ow * stride mp + j * dilation mp) - int (padding mp)" "p < L"
    by (auto simp: window_def)
  show "p < L" by fact
  from p show "ow * stride mp \<le> p + padding mp" by linarith
  have "j * dilation mp \<le> (kernel_size mp - 1) * dilation mp"
    using j by (intro mult_right_mono) auto
  with p show "p + padding mp \<le> ow * stride mp + (kernel_size mp - 1) * dilation mp"
    by linarith
qed

lemma pool_index_props:
  assumes "\<forall>ow<pool_output_size mp (length row). window mp (length row) ow \<noteq> []"
    and "ow < pool_output_size mp (length row)"
  shows "pool_indices mp row ! ow \<in> set (window mp (length row) ow)"
  using assms by (simp add: pool_indices_def argmax_mem)

lemma distinct_pool_indices:
  assumes ne: "\<forall>ow<pool_output_size mp (length row). window mp (length row) ow \<noteq> []"
    and no: "(kernel_size mp - 1) * dilation mp < stride mp"
  shows "distinct (pool_indices mp row)"
proof -
  have "v = w" if "v < pool_output_size mp (length row)" "w < pool_output_size mp (length row)"
    "pool_indices mp row ! v = pool_indices mp row ! w" for v w
  proof -
    let ?p = "pool_indices mp row ! v"
    have a: "v * stride mp \<le> ?p + padding mp"
      "?p + padding mp \<le> v * stride mp + (kernel_size mp - 1) * dilation mp"
      using window_bounds(2,3)[OF pool_index_props[OF ne that(1)]] by auto
    have b: "w * stride mp \<le> ?p + padding mp"
      "?p + padding mp \<le> w * stride mp + (kernel_size mp - 1) * dilation mp"
      using window_bounds(2,3)[OF pool_index_props[OF ne that(2)]] that(3) by auto
    have "v = (?p + padding mp) div stride mp"
      using a no by (intro div_nat_eqI[symmetric]) (auto simp: algebra_simps)
    moreover have "w = (?p + padding mp) div stride mp"
      using b no by (intro div_nat_eqI[symmetric]) (auto simp: algebra_simps)
    ultimately show ?thesis by simp
  qed
  then show ?thesis
    by (auto simp: distinct_conv_nth length_pool_indices)
qed

lemma pool_indices_less:
  assumes ne: "\<forall>ow<pool_output_size mp (length row). window mp (length row) ow \<noteq> []"
  shows "\<forall>i\<in>set (pool_indices mp row). i < length row"
proof
  fix i assume "i \<in> set (pool_indices mp row)"
  then obtain ow where "ow < pool_output_size mp (length row)" "i = pool_indices mp row ! ow"
    by (auto simp: in_set_conv_nth length_pool_indices)
  then show "i < length row"
    using window_bounds(1)[OF pool_index_props[OF ne]] by simp
qed


subsection \<open>Tensors with three axes\<close>

lemma is_tensor3_map2:
  "is_tensor3 n c l s \<Longrightarrow> is_tensor3 n c l t \<Longrightarrow> is_tensor3 n c l (map2 (map2 (map2 f)) s t)"
  by (auto simp: is_tensor3_def list_all_length)

lemma nth_map2_3:
  "is_tensor3 n c l s \<Longrightarrow> is_tensor3 n c l t \<Longrightarrow> i < n \<Longrightarrow> j < c \<Longrightarrow> k < l \<Longrightarrow>
   map2 (map2 (map2 f)) s t ! i ! j ! k = f (s ! i ! j ! k) (t ! i ! j ! k)"
  by (auto simp: is_tensor3_def list_all_length)

lemma is_tensor3_take: "is_tensor3 (2 * B) c l t \<Longrightarrow> is_tensor3 B c l (take B t)"
  by (auto simp: is_tensor3_def list_all_length)

lemma is_tensor3_drop: "is_tensor3 (2 * B) c l t \<Longrightarrow> is_tensor3 B c l (drop B t)"
  by (auto simp: is_tensor3_def list_all_length)

lemma is_tensor3_append:
  "is_tensor3 n c l s \<Longrightarrow> is_tensor3 m c l t \<Longrightarrow> is_tensor3 (n + m) c l (s @ t)"
  by (auto simp: is_tensor3_def)

lemma is_tensor3_double:
  "is_tensor3 B c l s \<Longrightarrow> is_tensor3 (2 * B) c l (s @ s)"
  using is_tensor3_append[of B c l s B s] by (simp add: mult_2)

lemma nth_double:
  "is_tensor3 B c l s \<Longrightarrow> b < B \<Longrightarrow> (s @ s) ! b = s ! b \<and> (s @ s) ! (B + b) = s ! b"
  by (auto simp: is_tensor3_def nth_append)

lemma where3_props:
  assumes "is_tensor3 n c l d" "is_tensor3 n c l s" "is_tensor3 n c l t"
  shows "is_tensor3 n c l (where3 (abs_less3 d e) s t)"
    and "i < n \<Longrightarrow> j < c \<Longrightarrow> k < l \<Longrightarrow>
      where3 (abs_less3 d e) s t ! i ! j ! k
        = (if \<bar>d ! i ! j ! k\<bar> < e then s ! i ! j ! k else t ! i ! j ! k)"
  using assms by (auto simp: is_tensor3_def where3_def abs_less3_def list_all_length)

lemma max_unpool1d_props:
  assumes "is_tensor3 n c lo v" "length idx = n" "\<forall>i<n. length (idx ! i) = c"
  shows "is_tensor3 n c L (max_unpool1d v idx L)"
    and "i < n \<Longrightarrow> j < c \<Longrightarrow> max_unpool1d v idx L ! i ! j = unpool_row L (v ! i ! j) (idx ! i ! j)"
  using assms
  by (auto simp: is_tensor3_def max_unpool1d_def list_all_length length_unpool_row)


lemma is_tensor3_degenerate:
  "n = 0 \<or> c = 0 \<Longrightarrow> is_tensor3 n c l t \<Longrightarrow> is_tensor3 n c l' t"
  by (auto simp: is_tensor3_def list_all_length)

lemma maxpool_props:
  assumes inp: "is_tensor3 (2 * B) C L inp"
    and outp: "is_tensor3 (2 * B) C (pool_output_size mp L) outp"
    and gi: "is_tensor3 (2 * B) C L gi"
    and go: "is_tensor3 (2 * B) C (pool_output_size mp L) go"
    and no: "(kernel_size mp - 1) * dilation mp < stride mp"
    and ne: "\<forall>ow<pool_output_size mp L. window mp L ow \<noteq> []"
  shows "\<exists>res. maxpool (MaxPool1d mp) inp outp gi go e = Inr res \<and> is_tensor3 (2 * B) C L res \<and>
    (\<forall>b<B. \<forall>c<C. \<forall>p<L.
       res ! b ! c ! p =
         (if \<bar>inp ! b ! c ! p - inp ! (B + b) ! c ! p\<bar> < e then gi ! b ! c ! p
          else ((\<Sum>w<pool_output_size mp L. if pool_indices mp (inp ! b ! c) ! w = p
                    then go ! b ! c ! w * (max (outp ! b ! c ! w) (outp ! (B + b) ! c ! w)
                                            - outp ! (B + b) ! c ! w) else 0)
              + (\<Sum>w<pool_output_size mp L. if pool_indices mp (inp ! (B + b) ! c) ! w = p
                    then go ! (B + b) ! c ! w * (outp ! b ! c ! w
                                            - max (outp ! b ! c ! w) (outp ! (B + b) ! c ! w)) else 0))
               / (inp ! b ! c ! p - inp ! (B + b) ! c ! p))
     \<and> res ! (B + b) ! c ! p =
         (if \<bar>inp ! b ! c ! p - inp ! (B + b) ! c ! p\<bar> < e then gi ! (B + b) ! c ! p
          else ((\<Sum>w<pool_output_size mp L. if pool_indices mp (inp ! b ! c) ! w = p
                    then go ! b ! c ! w * (max (outp ! b ! c ! w) (outp ! (B + b) ! c ! w)
                                            - outp ! (B + b) ! c ! w) else 0)
              + (\<Sum>w<pool_output_size mp L. if pool_indices mp (inp ! (B + b) ! c) ! w = p
                    then go ! (B + b) ! c ! w * (outp ! b ! c ! w
                                            - max (outp ! b ! c ! w) (outp ! (B + b) ! c ! w)) else 0))
               / (inp ! b ! c ! p - inp ! (B + b) ! c ! p)))"
proof -
  let ?Lo = "pool_output_size mp L"
  define L' where "L' = snd (snd (shape3 inp))"
  define din' where "din' = sub3 (take B inp) (drop B inp)"
  define xmax where "xmax = max3 (take B outp) (drop B outp)"
  define dout where "dout = sub3 xmax (drop B outp) @ sub3 (take B outp) xmax"
  define idx where "idx = map (map (pool_indices mp)) inp"
  define un where "un = max_unpool1d (mul3 go dout) idx L'"
  define U where "U = add3 (take B un) (drop B un)"
  define res where "res = where3 (abs_less3 (din' @ din') e) gi (div3 (U @ U) (din' @ din'))"
  have len: "length inp = 2 * B" "length outp = 2 * B"
    using inp outp by (simp_all add: is_tensor3_def)
  have ch: "chunk2 inp = (take B inp, drop B inp)" "chunk2 outp = (take B outp, drop B outp)"
    using len by (simp_all add: chunk2_even)
  have lun: "length un = 2 * B"
    using go outp inp by (simp add: un_def max_unpool1d_def mul3_def dout_def sub3_def xmax_def
        max3_def idx_def is_tensor3_def)
  have chu: "chunk2 un = (take B un, drop B un)"
    using lun by (simp add: chunk2_even)
  have eq: "maxpool (MaxPool1d mp) inp outp gi go e = Inr res"
    by (simp add: maxpool_def Let_def ch chu[unfolded un_def idx_def dout_def xmax_def L'_def]
        max_pool1d_def res_def U_def un_def idx_def dout_def xmax_def din'_def L'_def)
  have L': "L' = L" if "0 < B" "0 < C"
    using is_tensor3_shape3_gen[OF inp] that by (simp add: L'_def)
  have din': "is_tensor3 B C L din'"
    unfolding din'_def sub3_def using inp by (intro is_tensor3_map2 is_tensor3_take is_tensor3_drop)
  have din: "is_tensor3 (2 * B) C L (din' @ din')"
    using din' by (rule is_tensor3_double)
  have xmax: "is_tensor3 B C ?Lo xmax"
    unfolding xmax_def max3_def using outp by (intro is_tensor3_map2 is_tensor3_take is_tensor3_drop)
  have d1: "is_tensor3 B C ?Lo (sub3 xmax (drop B outp))"
    unfolding sub3_def by (intro is_tensor3_map2 is_tensor3_drop xmax outp)
  have d2: "is_tensor3 B C ?Lo (sub3 (take B outp) xmax)"
    unfolding sub3_def by (intro is_tensor3_map2 is_tensor3_take xmax outp)
  have dout: "is_tensor3 (2 * B) C ?Lo dout"
    unfolding dout_def using is_tensor3_append[OF d1 d2] by (simp add: mult_2)
  have vals: "is_tensor3 (2 * B) C ?Lo (mul3 go dout)"
    unfolding mul3_def using go dout by (rule is_tensor3_map2)
  have idx: "length idx = 2 * B" "\<forall>i<2 * B. length (idx ! i) = C"
    using inp by (auto simp: idx_def is_tensor3_def list_all_length)
  have un': "is_tensor3 (2 * B) C L' un"
    unfolding un_def using vals idx by (rule max_unpool1d_props(1))
  have un: "is_tensor3 (2 * B) C L un"
  proof (cases "0 < B \<and> 0 < C")
    case True then show ?thesis using un' L' by simp
  next
    case False then show ?thesis using un' by (intro is_tensor3_degenerate[OF _ un']) auto
  qed
  have U: "is_tensor3 B C L U"
    unfolding U_def add3_def using un by (intro is_tensor3_map2 is_tensor3_take is_tensor3_drop)
  have UU: "is_tensor3 (2 * B) C L (U @ U)"
    using U by (rule is_tensor3_double)
  have dv: "is_tensor3 (2 * B) C L (div3 (U @ U) (din' @ din'))"
    unfolding div3_def using UU din by (rule is_tensor3_map2)
  have shape: "is_tensor3 (2 * B) C L res"
    unfolding res_def using din gi dv by (rule where3_props(1))
  have val: "res ! b ! c ! p =
         (if \<bar>inp ! b ! c ! p - inp ! (B + b) ! c ! p\<bar> < e then gi ! b ! c ! p
          else ((\<Sum>w<?Lo. if pool_indices mp (inp ! b ! c) ! w = p
                    then go ! b ! c ! w * (max (outp ! b ! c ! w) (outp ! (B + b) ! c ! w)
                                            - outp ! (B + b) ! c ! w) else 0)
              + (\<Sum>w<?Lo. if pool_indices mp (inp ! (B + b) ! c) ! w = p
                    then go ! (B + b) ! c ! w * (outp ! b ! c ! w
                                            - max (outp ! b ! c ! w) (outp ! (B + b) ! c ! w)) else 0))
               / (inp ! b ! c ! p - inp ! (B + b) ! c ! p))
     \<and> res ! (B + b) ! c ! p =
         (if \<bar>inp ! b ! c ! p - inp ! (B + b) ! c ! p\<bar> < e then gi ! (B + b) ! c ! p
          else ((\<Sum>w<?Lo. if pool_indices mp (inp ! b ! c) ! w = p
                    then go ! b ! c ! w * (max (outp ! b ! c ! w) (outp ! (B + b) ! c ! w)
                                            - outp ! (B + b) ! c ! w) else 0)
              + (\<Sum>w<?Lo. if pool_indices mp (inp ! (B + b) ! c) ! w = p
                    then go ! (B + b) ! c ! w * (outp ! b ! c ! w
                                            - max (outp ! b ! c ! w) (outp ! (B + b) ! c ! w)) else 0))
               / (inp ! b ! c ! p - inp ! (B + b) ! c ! p))"
    if b: "b < B" and c: "c < C" and p: "p < L" for b c p
  proof -
    have b2: "b < 2 * B" "B + b < 2 * B" using b by simp_all
    have LL: "L' = L" using L' b c by simp
    have tk: "take B t ! b = t ! b" "drop B t ! b = t ! (B + b)" if "length t = 2 * B" for t :: tensor3
      using b that by simp_all
    have rowlen: "length (inp ! b ! c) = L" "length (inp ! (B + b) ! c) = L"
      using is_tensor3_nth_nth[OF inp _ c] b2 by simp_all
    \<comment> \<open>the input difference\<close>
    have dinv: "(din' @ din') ! b ! c ! p = inp ! b ! c ! p - inp ! (B + b) ! c ! p"
      "(din' @ din') ! (B + b) ! c ! p = inp ! b ! c ! p - inp ! (B + b) ! c ! p"
      using nth_double[OF din' b]
        nth_map2_3[OF is_tensor3_take[OF inp] is_tensor3_drop[OF inp] b c p, of "(-)"]
        tk[OF len(1)]
      by (simp_all add: din'_def sub3_def)
    \<comment> \<open>the weights of the two halves\<close>
    have xm: "xmax ! b ! c ! w = max (outp ! b ! c ! w) (outp ! (B + b) ! c ! w)" if "w < ?Lo" for w
      using nth_map2_3[OF is_tensor3_take[OF outp] is_tensor3_drop[OF outp] b c that, of max]
        tk[OF len(2)]
      by (simp add: xmax_def max3_def)
    have l1: "length (sub3 xmax (drop B outp)) = B" using d1 by (simp add: is_tensor3_def)
    have do1: "dout ! b ! c ! w
        = max (outp ! b ! c ! w) (outp ! (B + b) ! c ! w) - outp ! (B + b) ! c ! w"
      if "w < ?Lo" for w
      using nth_map2_3[OF xmax is_tensor3_drop[OF outp] b c that, of "(-)"] xm[OF that] b l1
        tk[OF len(2)]
      by (simp add: dout_def nth_append sub3_def)
    have do2: "dout ! (B + b) ! c ! w
        = outp ! b ! c ! w - max (outp ! b ! c ! w) (outp ! (B + b) ! c ! w)"
      if "w < ?Lo" for w
      using nth_map2_3[OF is_tensor3_take[OF outp] xmax b c that, of "(-)"] xm[OF that] b l1
        tk[OF len(2)]
      by (simp add: dout_def nth_append sub3_def)
    have v1: "mul3 go dout ! b ! c ! w
        = go ! b ! c ! w * (max (outp ! b ! c ! w) (outp ! (B + b) ! c ! w)
                             - outp ! (B + b) ! c ! w)" if "w < ?Lo" for w
      using nth_map2_3[OF go dout b2(1) c that, of "(*)"] do1[OF that] by (simp add: mul3_def)
    have v2: "mul3 go dout ! (B + b) ! c ! w
        = go ! (B + b) ! c ! w * (outp ! b ! c ! w
                             - max (outp ! b ! c ! w) (outp ! (B + b) ! c ! w))" if "w < ?Lo" for w
      using nth_map2_3[OF go dout b2(2) c that, of "(*)"] do2[OF that] by (simp add: mul3_def)
    have vl: "length (mul3 go dout ! b ! c) = ?Lo" "length (mul3 go dout ! (B + b) ! c) = ?Lo"
      using is_tensor3_nth_nth[OF vals _ c] b2 by simp_all
    \<comment> \<open>the indices\<close>
    have ix: "idx ! b ! c = pool_indices mp (inp ! b ! c)"
      "idx ! (B + b) ! c = pool_indices mp (inp ! (B + b) ! c)"
      using inp b2 c is_tensor3_nth[OF inp] by (simp_all add: idx_def is_tensor3_def)
    have ne1: "\<forall>ow<pool_output_size mp (length (inp ! b ! c)).
        window mp (length (inp ! b ! c)) ow \<noteq> []"
      and ne2: "\<forall>ow<pool_output_size mp (length (inp ! (B + b) ! c)).
        window mp (length (inp ! (B + b) ! c)) ow \<noteq> []"
      using ne rowlen by simp_all
    have dist: "distinct (pool_indices mp (inp ! b ! c))"
      "distinct (pool_indices mp (inp ! (B + b) ! c))"
      using distinct_pool_indices[OF ne1 no] distinct_pool_indices[OF ne2 no] by simp_all
    have li: "length (pool_indices mp (inp ! b ! c)) = ?Lo"
      "length (pool_indices mp (inp ! (B + b) ! c)) = ?Lo"
      using rowlen by (simp_all add: length_pool_indices)
    \<comment> \<open>unpooling\<close>
    have u1: "un ! b ! c ! p = (\<Sum>w<?Lo. if pool_indices mp (inp ! b ! c) ! w = p
        then go ! b ! c ! w * (max (outp ! b ! c ! w) (outp ! (B + b) ! c ! w)
                                - outp ! (B + b) ! c ! w) else 0)"
    proof -
      have "un ! b ! c = unpool_row L (mul3 go dout ! b ! c) (pool_indices mp (inp ! b ! c))"
        using max_unpool1d_props(2)[OF vals idx b2(1) c, of L'] ix LL by (simp add: un_def)
      then have "un ! b ! c ! p = (\<Sum>w<?Lo. if pool_indices mp (inp ! b ! c) ! w = p
          then mul3 go dout ! b ! c ! w else 0)"
        using unpool_row_nth[OF dist(1) _ p, of "mul3 go dout ! b ! c"] li vl by simp
      also have "\<dots> = (\<Sum>w<?Lo. if pool_indices mp (inp ! b ! c) ! w = p
          then go ! b ! c ! w * (max (outp ! b ! c ! w) (outp ! (B + b) ! c ! w)
                                - outp ! (B + b) ! c ! w) else 0)"
        by (intro sum.cong) (auto simp: v1)
      finally show ?thesis .
    qed
    have u2: "un ! (B + b) ! c ! p = (\<Sum>w<?Lo. if pool_indices mp (inp ! (B + b) ! c) ! w = p
        then go ! (B + b) ! c ! w * (outp ! b ! c ! w
                                - max (outp ! b ! c ! w) (outp ! (B + b) ! c ! w)) else 0)"
    proof -
      have "un ! (B + b) ! c
          = unpool_row L (mul3 go dout ! (B + b) ! c) (pool_indices mp (inp ! (B + b) ! c))"
        using max_unpool1d_props(2)[OF vals idx b2(2) c, of L'] ix LL by (simp add: un_def)
      then have "un ! (B + b) ! c ! p = (\<Sum>w<?Lo. if pool_indices mp (inp ! (B + b) ! c) ! w = p
          then mul3 go dout ! (B + b) ! c ! w else 0)"
        using unpool_row_nth[OF dist(2) _ p, of "mul3 go dout ! (B + b) ! c"] li vl by simp
      also have "\<dots> = (\<Sum>w<?Lo. if pool_indices mp (inp ! (B + b) ! c) ! w = p
          then go ! (B + b) ! c ! w * (outp ! b ! c ! w
                                - max (outp ! b ! c ! w) (outp ! (B + b) ! c ! w)) else 0)"
        by (intro sum.cong) (auto simp: v2)
      finally show ?thesis .
    qed
    have Uv: "U ! b ! c ! p = un ! b ! c ! p + un ! (B + b) ! c ! p"
      using nth_map2_3[OF is_tensor3_take[OF un] is_tensor3_drop[OF un] b c p, of "(+)"]
        tk[OF lun]
      by (simp add: U_def add3_def)
    have UUv: "(U @ U) ! b ! c ! p = U ! b ! c ! p" "(U @ U) ! (B + b) ! c ! p = U ! b ! c ! p"
      using nth_double[OF U b] by simp_all
    have dvv: "div3 (U @ U) (din' @ din') ! b ! c ! p
        = U ! b ! c ! p / (inp ! b ! c ! p - inp ! (B + b) ! c ! p)"
      "div3 (U @ U) (din' @ din') ! (B + b) ! c ! p
        = U ! b ! c ! p / (inp ! b ! c ! p - inp ! (B + b) ! c ! p)"
      using nth_map2_3[OF UU din b2(1) c p, of "(/)"] nth_map2_3[OF UU din b2(2) c p, of "(/)"]
        UUv dinv
      by (simp_all add: div3_def)
    show ?thesis
      unfolding res_def
      using where3_props(2)[OF din gi dv b2(1) c p, of e]
        where3_props(2)[OF din gi dv b2(2) c p, of e] dvv dinv Uv u1 u2
      by simp
  qed
  show ?thesis
    using eq shape val by blast
qed


lemma toy_pool:
  "max_pool1d [[[1, 5, 2, 8]], [[9, 0, 0, 0]]]
     \<lparr>kernel_size = 2, stride = 2, padding = 0, dilation = 1, ceil_mode = False\<rparr>
   = ([[[5, 8]], [[9, 0]]], [[[1, 3]], [[0, 2]]])"
  by code_simp

lemma toy_maxpool_disagree:
  "maxpool
      (MaxPool1d \<lparr>kernel_size = 2, stride = 2, padding = 0, dilation = 1, ceil_mode = False\<rparr>)
      [[[1, 5, 2, 8]], [[9, 0, 0, 0]]] [[[5, 8]], [[9, 0]]]
      [[[0, 1, 0, 1]], [[1, 0, 1, 0]]] [[[1, 1]], [[1, 1]]] (1 / 10 ^ 10)
    = Inr [[[1 / 2, 0, 0, 1]], [[1 / 2, 0, 0, 1]]]"
  by code_simp

text \<open>
  Claim C4 as stated fails on the toy input: the claim fixes only the example row
  \<open>[1, 5, 2, 8]\<close>, and the rule recomputes the arg-max positions of the reference row as
  well. With the reference \<open>[9, 0, 0, 0]\<close> (pooled \<open>[9, 0]\<close>, arg-max positions 0 and 2) and
  unit gradients the returned gradient is \<open>[1/2, 0, 0, 1]\<close>: nonzero at position 0 and
  zero at position 1.
\<close>

theorem maxpool_toy_counterexample:
  "\<not> (\<forall>reference grad_input grad_output res.
        maxpool
          (MaxPool1d \<lparr>kernel_size = 2, stride = 2, padding = 0, dilation = 1, ceil_mode = False\<rparr>)
          [[[1, 5, 2, 8]], [reference]]
          (fst (max_pool1d [[[1, 5, 2, 8]], [reference]]
             \<lparr>kernel_size = 2, stride = 2, padding = 0, dilation = 1, ceil_mode = False\<rparr>))
          grad_input grad_output (1 / 10 ^ 10) = Inr res
        \<longrightarrow> (\<forall>p<4. res ! 0 ! 0 ! p \<noteq> 0 \<longrightarrow> p = 1 \<or> p = 3))"
proof
  assume a: "\<forall>reference grad_input grad_output res.
        maxpool
          (MaxPool1d \<lparr>kernel_size = 2, stride = 2, padding = 0, dilation = 1, ceil_mode = False\<rparr>)
          [[[1, 5, 2, 8]], [reference]]
          (fst (max_pool1d [[[1, 5, 2, 8]], [reference]]
             \<lparr>kernel_size = 2, stride = 2, padding = 0, dilation = 1, ceil_mode = False\<rparr>))
          grad_input grad_output (1 / 10 ^ 10) = Inr res
        \<longrightarrow> (\<forall>p<4. res ! 0 ! 0 ! p \<noteq> 0 \<longrightarrow> p = 1 \<or> p = 3)"
  have "\<forall>p<4. [[[1 / 2, 0, 0, 1]], [[1 / 2, 0, 0, 1::real]]] ! 0 ! 0 ! p \<noteq> 0 \<longrightarrow> p = 1 \<or> p = 3"
    using a[rule_format, of "[9, 0, 0, 0]" "[[[0, 1, 0, 1]], [[1, 0, 1, 0]]]"
        "[[[1, 1]], [[1, 1]]]" "[[[1 / 2, 0, 0, 1]], [[1 / 2, 0, 0, 1]]]"]
      toy_maxpool_disagree toy_pool
    by simp
  then have "[[[1 / 2, 0, 0, 1]], [[1 / 2, 0, 0, 1::real]]] ! 0 ! 0 ! 0 \<noteq> 0 \<longrightarrow> (0::nat) = 1 \<or> (0::nat) = 3"
    by (elim allE[of _ 0]) simp
  then show False by simp
qed


lemma sum_if_notin:
  "p \<notin> set idx \<Longrightarrow> length idx = n \<Longrightarrow> (\<Sum>w<n. if idx ! w = p then f w else (0::real)) = 0"
  by (intro sum.neutral) auto

text \<open>
  Claim C4, amended. For a \<open>MaxPool1d\<close> module whose windows do not overlap, a cached
  input of shape \<open>(2B, C, L)\<close> and a cached output of the pooled shape, \<^verbatim>\<open>_maxpool\<close> returns
  a tensor of the input's shape. At a position where the two input halves differ by less
  than \<open>eps\<close> it passes \<open>grad_input\<close> on. Elsewhere both halves receive, divided by the
  input difference, the sum of two scattered pieces: \<open>grad_output\<close> of the example half
  times \<open>max(output, output_ref) - output_ref\<close>, placed at the arg-max positions of the
  example's input row, and \<open>grad_output\<close> of the reference half times
  \<open>output - max(output, output_ref)\<close>, placed at the arg-max positions of the reference's
  input row. So the returned gradient is zero at every position that is an arg-max
  position of neither row, and also at every position outside the example's arg-max
  positions when no pooled reference value exceeds the example's. For the toy input
  \<open>[1, 5, 2, 8]\<close> with kernel 2 and stride 2 and such a reference (all zeros, say), the
  gradient is zero at positions 0 and 2.
\<close>

theorem maxpool_rule:
  assumes "is_tensor3 (2 * B) C L inp"
    and "is_tensor3 (2 * B) C (pool_output_size mp L) outp"
    and "is_tensor3 (2 * B) C L gi"
    and "is_tensor3 (2 * B) C (pool_output_size mp L) go"
    and "(kernel_size mp - 1) * dilation mp < stride mp"
    and "\<forall>ow<pool_output_size mp L. window mp L ow \<noteq> []"
  shows "\<exists>res. maxpool (MaxPool1d mp) inp outp gi go e = Inr res \<and> is_tensor3 (2 * B) C L res \<and>
    (\<forall>b<B. \<forall>c<C. \<forall>p<L.
       res ! b ! c ! p =
         (if \<bar>inp ! b ! c ! p - inp ! (B + b) ! c ! p\<bar> < e then gi ! b ! c ! p
          else ((\<Sum>w<pool_output_size mp L. if pool_indices mp (inp ! b ! c) ! w = p
                    then go ! b ! c ! w * (max (outp ! b ! c ! w) (outp ! (B + b) ! c ! w)
                                            - outp ! (B + b) ! c ! w) else 0)
              + (\<Sum>w<pool_output_size mp L. if pool_indices mp (inp ! (B + b) ! c) ! w = p
                    then go ! (B + b) ! c ! w * (outp ! b ! c ! w
                                            - max (outp ! b ! c ! w) (outp ! (B + b) ! c ! w)) else 0))
               / (inp ! b ! c ! p - inp ! (B + b) ! c ! p))
     \<and> res ! (B + b) ! c ! p =
         (if \<bar>inp ! b ! c ! p - inp ! (B + b) ! c ! p\<bar> < e then gi ! (B + b) ! c ! p
          else ((\<Sum>w<pool_output_size mp L. if pool_indices mp (inp ! b ! c) ! w = p
                    then go ! b ! c ! w * (max (outp ! b ! c ! w) (outp ! (B + b) ! c ! w)
                                            - outp ! (B + b) ! c ! w) else 0)
              + (\<Sum>w<pool_output_size mp L. if pool_indices mp (inp ! (B + b) ! c) ! w = p
                    then go ! (B + b) ! c ! w * (outp ! b ! c ! w
                                            - max (outp ! b ! c ! w) (outp ! (B + b) ! c ! w)) else 0))
               / (inp ! b ! c ! p - inp ! (B + b) ! c ! p))) \<and>
    (\<forall>b<B. \<forall>c<C. \<forall>p<L.
       \<not> \<bar>inp ! b ! c ! p - inp ! (B + b) ! c ! p\<bar> < e
       \<and> p \<notin> set (pool_indices mp (inp ! b ! c))
       \<and> p \<notin> set (pool_indices mp (inp ! (B + b) ! c))
       \<longrightarrow> res ! b ! c ! p = 0 \<and> res ! (B + b) ! c ! p = 0) \<and>
    (\<forall>b<B. \<forall>c<C. \<forall>p<L.
       \<not> \<bar>inp ! b ! c ! p - inp ! (B + b) ! c ! p\<bar> < e
       \<and> p \<notin> set (pool_indices mp (inp ! b ! c))
       \<and> (\<forall>w<pool_output_size mp L. outp ! (B + b) ! c ! w \<le> outp ! b ! c ! w)
       \<longrightarrow> res ! b ! c ! p = 0 \<and> res ! (B + b) ! c ! p = 0)"
proof -
  from maxpool_props[OF assms, of e] obtain res where
    eq: "maxpool (MaxPool1d mp) inp outp gi go e = Inr res" and sh: "is_tensor3 (2 * B) C L res"
    and val: "\<forall>b<B. \<forall>c<C. \<forall>p<L.
       res ! b ! c ! p =
         (if \<bar>inp ! b ! c ! p - inp ! (B + b) ! c ! p\<bar> < e then gi ! b ! c ! p
          else ((\<Sum>w<pool_output_size mp L. if pool_indices mp (inp ! b ! c) ! w = p
                    then go ! b ! c ! w * (max (outp ! b ! c ! w) (outp ! (B + b) ! c ! w)
                                            - outp ! (B + b) ! c ! w) else 0)
              + (\<Sum>w<pool_output_size mp L. if pool_indices mp (inp ! (B + b) ! c) ! w = p
                    then go ! (B + b) ! c ! w * (outp ! b ! c ! w
                                            - max (outp ! b ! c ! w) (outp ! (B + b) ! c ! w)) else 0))
               / (inp ! b ! c ! p - inp ! (B + b) ! c ! p))
     \<and> res ! (B + b) ! c ! p =
         (if \<bar>inp ! b ! c ! p - inp ! (B + b) ! c ! p\<bar> < e then gi ! (B + b) ! c ! p
          else ((\<Sum>w<pool_output_size mp L. if pool_indices mp (inp ! b ! c) ! w = p
                    then go ! b ! c ! w * (max (outp ! b ! c ! w) (outp ! (B + b) ! c ! w)
                                            - outp ! (B + b) ! c ! w) else 0)
              + (\<Sum>w<pool_output_size mp L. if pool_indices mp (inp ! (B + b) ! c) ! w = p
                    then go ! (B + b) ! c ! w * (outp ! b ! c ! w
                                            - max (outp ! b ! c ! w) (outp ! (B + b) ! c ! w)) else 0))
               / (inp ! b ! c ! p - inp ! (B + b) ! c ! p))"
    by blast
  have li: "length (pool_indices mp (inp ! i ! c)) = pool_output_size mp L"
    if "i < 2 * B" "c < C" for i c
    using is_tensor3_nth_nth[OF assms(1) that] by (simp add: length_pool_indices)
  have z1: "res ! b ! c ! p = 0 \<and> res ! (B + b) ! c ! p = 0"
    if "b < B" "c < C" "p < L" "\<not> \<bar>inp ! b ! c ! p - inp ! (B + b) ! c ! p\<bar> < e"
      "p \<notin> set (pool_indices mp (inp ! b ! c))" "p \<notin> set (pool_indices mp (inp ! (B + b) ! c))"
    for b c p
    using val[rule_format, OF that(1,2,3)] that(4)
      sum_if_notin[OF that(5) li[of b c]] sum_if_notin[OF that(6) li[of "B + b" c]] that(1,2)
    by simp
  have z2: "res ! b ! c ! p = 0 \<and> res ! (B + b) ! c ! p = 0"
    if "b < B" "c < C" "p < L" "\<not> \<bar>inp ! b ! c ! p - inp ! (B + b) ! c ! p\<bar> < e"
      "p \<notin> set (pool_indices mp (inp ! b ! c))"
      "\<forall>w<pool_output_size mp L. outp ! (B + b) ! c ! w \<le> outp ! b ! c ! w"
    for b c p
  proof -
    have "(\<Sum>w<pool_output_size mp L. if pool_indices mp (inp ! (B + b) ! c) ! w = p
              then go ! (B + b) ! c ! w * (outp ! b ! c ! w
                      - max (outp ! b ! c ! w) (outp ! (B + b) ! c ! w)) else 0) = 0"
      using that(6) by (intro sum.neutral) (auto simp: max_def)
    then show ?thesis
      using val[rule_format, OF that(1,2,3)] that(4) sum_if_notin[OF that(5) li[of b c]] that(1,2)
      by simp
  qed
  show ?thesis
    using eq sh val z1 z2 by blast
qed




theorem maxpool_rule_witness:
  "is_tensor3 (2 * 1) 1 4 [[[1, 5, 2, 8]], [[0, 0, 0, 0]]]
   \<and> is_tensor3 (2 * 1) 1 2 [[[5, 8]], [[0, 0]]]
   \<and> is_tensor3 (2 * 1) 1 4 [[[0, 1, 0, 1]], [[1, 0, 1, 0]]]
   \<and> is_tensor3 (2 * 1) 1 2 [[[3, 7]], [[3, 7]]]
   \<and> pool_output_size
        \<lparr>kernel_size = 2, stride = 2, padding = 0, dilation = 1, ceil_mode = False\<rparr> 4 = 2
   \<and> window \<lparr>kernel_size = 2, stride = 2, padding = 0, dilation = 1, ceil_mode = False\<rparr> 4 0
        = [0, 1]
   \<and> window \<lparr>kernel_size = 2, stride = 2, padding = 0, dilation = 1, ceil_mode = False\<rparr> 4 1
        = [2, 3]
   \<and> max_pool1d [[[1, 5, 2, 8]], [[0, 0, 0, 0]]]
        \<lparr>kernel_size = 2, stride = 2, padding = 0, dilation = 1, ceil_mode = False\<rparr>
        = ([[[5, 8]], [[0, 0]]], [[[1, 3]], [[0, 2]]])
   \<and> (\<exists>res. maxpool
          (MaxPool1d \<lparr>kernel_size = 2, stride = 2, padding = 0, dilation = 1, ceil_mode = False\<rparr>)
          [[[1, 5, 2, 8]], [[0, 0, 0, 0]]] [[[5, 8]], [[0, 0]]]
          [[[0, 1, 0, 1]], [[1, 0, 1, 0]]] [[[3, 7]], [[3, 7]]] (1 / 10 ^ 10) = Inr res
        \<and> is_tensor3 (2 * 1) 1 4 res
        \<and> res ! 0 ! 0 ! 0 = 0 \<and> res ! 0 ! 0 ! 2 = 0 \<and> res ! 1 ! 0 ! 0 = 0 \<and> res ! 1 ! 0 ! 2 = 0
        \<and> res = [[[0, 3, 0, 7]], [[0, 3, 0, 7]]])"
proof -
  define mp where "mp = \<lparr>kernel_size = 2, stride = 2, padding = 0, dilation = 1, ceil_mode = False\<rparr>"
  define inp :: tensor3 where "inp = [[[1, 5, 2, 8]], [[0, 0, 0, 0]]]"
  define outp :: tensor3 where "outp = [[[5, 8]], [[0, 0]]]"
  define gi :: tensor3 where "gi = [[[0, 1, 0, 1]], [[1, 0, 1, 0]]]"
  define go :: tensor3 where "go = [[[3, 7]], [[3, 7]]]"
  have n: "pool_output_size mp 4 = 2" unfolding mp_def by code_simp
  have w: "window mp 4 0 = [0, 1]" "window mp 4 1 = [2, 3]" unfolding mp_def by code_simp+
  have pool: "max_pool1d inp mp = ([[[5, 8]], [[0, 0]]], [[[1, 3]], [[0, 2]]])"
    unfolding mp_def inp_def by code_simp
  have h1: "is_tensor3 (2 * 1) 1 4 inp" and h3: "is_tensor3 (2 * 1) 1 4 gi"
    and h2': "is_tensor3 (2 * 1) 1 2 outp" and h4': "is_tensor3 (2 * 1) 1 2 go"
    by (simp_all add: is_tensor3_def inp_def gi_def outp_def go_def)
  have h2: "is_tensor3 (2 * 1) 1 (pool_output_size mp 4) outp"
    and h4: "is_tensor3 (2 * 1) 1 (pool_output_size mp 4) go"
    unfolding n by (rule h2', rule h4')
  have h5: "(kernel_size mp - 1) * dilation mp < stride mp" by (simp add: mp_def)
  have h6: "\<forall>ow<pool_output_size mp 4. window mp 4 ow \<noteq> []"
    unfolding n
  proof (intro allI impI)
    fix ow :: nat assume "ow < 2"
    then consider "ow = 0" | "ow = 1" by linarith
    then show "window mp 4 ow \<noteq> []" using w by cases simp_all
  qed
  have ev: "maxpool (MaxPool1d mp) inp outp gi go (1 / 10 ^ 10)
      = Inr [[[0, 3, 0, 7]], [[0, 3, 0, 7]]]"
    unfolding mp_def inp_def outp_def gi_def go_def by code_simp
  have pi: "pool_indices mp (inp ! 0 ! 0) = [1, 3]" unfolding mp_def inp_def by code_simp
  have le: "\<forall>w<pool_output_size mp 4. outp ! (1 + 0) ! 0 ! w \<le> outp ! 0 ! 0 ! w"
    unfolding n
  proof (intro allI impI)
    fix w :: nat assume "w < 2"
    then consider "w = 0" | "w = 1" by linarith
    then show "outp ! (1 + 0) ! 0 ! w \<le> outp ! 0 ! 0 ! w" by cases (simp_all add: outp_def)
  qed
  have d0: "\<not> \<bar>inp ! 0 ! 0 ! 0 - inp ! (1 + 0) ! 0 ! 0\<bar> < 1 / 10 ^ 10"
    and d2: "\<not> \<bar>inp ! 0 ! 0 ! 2 - inp ! (1 + 0) ! 0 ! 2\<bar> < 1 / 10 ^ 10"
    by (simp_all add: inp_def)
  from maxpool_rule[OF h1 h2 h3 h4 h5 h6, of "1 / 10 ^ 10"] obtain res where
    eq: "maxpool (MaxPool1d mp) inp outp gi go (1 / 10 ^ 10) = Inr res"
    and sh: "is_tensor3 (2 * 1) 1 4 res"
    and z: "\<forall>b<1. \<forall>c<1. \<forall>p<4.
       \<not> \<bar>inp ! b ! c ! p - inp ! (1 + b) ! c ! p\<bar> < 1 / 10 ^ 10
       \<and> p \<notin> set (pool_indices mp (inp ! b ! c))
       \<and> (\<forall>w<pool_output_size mp 4. outp ! (1 + b) ! c ! w \<le> outp ! b ! c ! w)
       \<longrightarrow> res ! b ! c ! p = 0 \<and> res ! (1 + b) ! c ! p = 0"
    by (elim exE conjE) (rule that, assumption+)
  have z0: "res ! 0 ! 0 ! 0 = 0 \<and> res ! (1 + 0) ! 0 ! 0 = 0"
    using z[rule_format, of 0 0 0] d0 le by (simp only: pi) simp
  have z2: "res ! 0 ! 0 ! 2 = 0 \<and> res ! (1 + 0) ! 0 ! 2 = 0"
    using z[rule_format, of 0 0 2] d2 le by (simp only: pi) simp
  have r: "res = [[[0, 3, 0, 7]], [[0, 3, 0, 7]]]"
    using eq ev by simp
  have "maxpool (MaxPool1d mp) inp outp gi go (1 / 10 ^ 10) = Inr res
        \<and> is_tensor3 (2 * 1) 1 4 res
        \<and> res ! 0 ! 0 ! 0 = 0 \<and> res ! 0 ! 0 ! 2 = 0 \<and> res ! 1 ! 0 ! 0 = 0 \<and> res ! 1 ! 0 ! 2 = 0
        \<and> res = [[[0, 3, 0, 7]], [[0, 3, 0, 7]]]"
    using eq sh z0 z2 r by simp
  then have ex: "\<exists>res. maxpool (MaxPool1d mp) inp outp gi go (1 / 10 ^ 10) = Inr res
        \<and> is_tensor3 (2 * 1) 1 4 res
        \<and> res ! 0 ! 0 ! 0 = 0 \<and> res ! 0 ! 0 ! 2 = 0 \<and> res ! 1 ! 0 ! 0 = 0 \<and> res ! 1 ! 0 ! 2 = 0
        \<and> res = [[[0, 3, 0, 7]], [[0, 3, 0, 7]]]" ..
  show ?thesis
    using h1 h2' h3 h4' n w pool ex
    unfolding mp_def inp_def outp_def gi_def go_def
    by (intro conjI)
qed



section \<open>Properties of the attribution engine\<close>

subsection \<open>Hooks\<close>

text \<open>What the handles in \<open>hs\<close> that point at position \<open>j\<close> remove from a module.\<close>

lemma remove_length: "length (modules (remove h w)) = length (modules w)"
  by (cases h) (simp add: remove_def)

lemma foldl_remove_length: "length (modules (foldl (\<lambda>w h. remove h w) w hs)) = length (modules w)"
  by (induction hs arbitrary: w) (simp_all add: remove_length)

lemma foldl_remove_nth:
  "j < length (modules w) \<Longrightarrow>
   modules (foldl (\<lambda>w h. remove h w) w hs) ! j = strip_handles j hs (modules w ! j)"
proof (induction hs arbitrary: w)
  case Nil
  then show ?case by (simp add: strip_handles_def)
next
  case (Cons h hs)
  obtain i d k where h: "h = (i, d, k)" by (cases h)
  have "modules (remove h w) ! j = (if i = j then remove_hook d k (modules w ! j) else modules w ! j)"
    using Cons.prems h by (auto simp: remove_def)
  moreover have "j < length (modules (remove h w))"
    using Cons.prems by (simp add: remove_length)
  ultimately show ?case
    using Cons.IH[of "remove h w"] h by (simp add: strip_handles_def)
qed


lemma strip_handles_append:
  "strip_handles j (hs @ hs') m = strip_handles j hs' (strip_handles j hs m)"
  by (simp add: strip_handles_def)

lemma hooks_of_remove_hook_cong:
  "hooks_of m = hooks_of m' \<Longrightarrow> hooks_of (remove_hook d k m) = hooks_of (remove_hook d k m')"
  by (cases d) (auto simp: hooks_of_def)

lemma hooks_of_strip_cong:
  "hooks_of m = hooks_of m' \<Longrightarrow> hooks_of (strip_handles j hs m) = hooks_of (strip_handles j hs m')"
proof (induction hs arbitrary: m m')
  case Nil
  then show ?case by (simp add: strip_handles_def)
next
  case (Cons h hs)
  obtain i d k where h: "h = (i, d, k)" by (cases h)
  have "hooks_of (if i = j then remove_hook d k m else m)
      = hooks_of (if i = j then remove_hook d k m' else m')"
    using hooks_of_remove_hook_cong[OF Cons.prems, of d k] Cons.prems by (cases "i = j") simp_all
  from Cons.IH[OF this] show ?case
    using h by (simp add: strip_handles_def)
qed

lemma remove_hook_absent:
  "k \<notin> hook_ids m \<Longrightarrow> remove_hook d k m = m"
proof -
  have f: "filter (\<lambda>h. fst h \<noteq> k) xs = xs" if "k \<notin> fst ` set xs" for xs :: "(nat \<times> hook) list"
    using that by (induction xs) auto
  assume "k \<notin> hook_ids m"
  then show ?thesis
    by (cases d) (auto simp: hook_ids_def f image_Un)
qed

lemma strip_handles_stale:
  "\<forall>(i, d, k)\<in>set hs. k \<notin> hook_ids m \<Longrightarrow> strip_handles j hs m = m"
  by (induction hs) (auto simp: strip_handles_def remove_hook_absent)

lemma strip_handles_other:
  "\<forall>(i, d, k)\<in>set hs. i \<noteq> j \<Longrightarrow> strip_handles j hs m = m"
  by (induction hs) (auto simp: strip_handles_def)

lemma hook_ids_remove_hook: "hook_ids (remove_hook d k m) \<subseteq> hook_ids m"
  by (cases d) (auto simp: hook_ids_def)

lemma hook_ids_strip: "hook_ids (strip_handles j hs m) \<subseteq> hook_ids m"
proof (induction hs arbitrary: m)
  case Nil
  then show ?case by (simp add: strip_handles_def)
next
  case (Cons h hs)
  obtain i d k where h: "h = (i, d, k)" by (cases h)
  have "hook_ids (strip_handles j hs (if i = j then remove_hook d k m else m))
      \<subseteq> hook_ids (if i = j then remove_hook d k m else m)"
    by (rule Cons.IH)
  also have "\<dots> \<subseteq> hook_ids m" using hook_ids_remove_hook by auto
  finally show ?case using h by (simp add: strip_handles_def)
qed

text \<open>The module as \<^verbatim>\<open>_register_hooks\<close> leaves it, with the ids \<open>k\<close>, \<open>k + 1\<close>, \<open>k + 2\<close>.\<close>

lemma remove_hook_installed:
  assumes "k0 < k"
  shows "remove_hook d k0
      (m\<lparr>forward_hooks := forward_hooks m @ [(k, F_hook)],
         forward_pre_hooks := forward_pre_hooks m @ [(k + 1, Fp_hook)],
         backward_hooks := backward_hooks m @ [(k + 2, B_hook)]\<rparr>)
    = (remove_hook d k0 m)
        \<lparr>forward_hooks := forward_hooks (remove_hook d k0 m) @ [(k, F_hook)],
         forward_pre_hooks := forward_pre_hooks (remove_hook d k0 m) @ [(k + 1, Fp_hook)],
         backward_hooks := backward_hooks (remove_hook d k0 m) @ [(k + 2, B_hook)]\<rparr>"
  using assms by (cases d) auto

lemma strip_handles_installed:
  assumes "\<forall>(i, d, k0)\<in>set hs. k0 < k"
  shows "strip_handles j hs
      (m\<lparr>forward_hooks := forward_hooks m @ [(k, F_hook)],
         forward_pre_hooks := forward_pre_hooks m @ [(k + 1, Fp_hook)],
         backward_hooks := backward_hooks m @ [(k + 2, B_hook)]\<rparr>)
    = (strip_handles j hs m)
        \<lparr>forward_hooks := forward_hooks (strip_handles j hs m) @ [(k, F_hook)],
         forward_pre_hooks := forward_pre_hooks (strip_handles j hs m) @ [(k + 1, Fp_hook)],
         backward_hooks := backward_hooks (strip_handles j hs m) @ [(k + 2, B_hook)]\<rparr>"
  using assms
proof (induction hs arbitrary: m)
  case Nil
  then show ?case by (simp add: strip_handles_def)
next
  case (Cons h hs)
  obtain i d k0 where h: "h = (i, d, k0)" by (cases h)
  then have k0: "k0 < k" using Cons.prems by simp
  have rest: "\<forall>(i, d, k0)\<in>set hs. k0 < k" using Cons.prems by simp
  show ?case
  proof (cases "i = j")
    case True
    then show ?thesis
      using Cons.IH[OF rest, of "remove_hook d k0 m"] h remove_hook_installed[OF k0, of d m]
      by (simp add: strip_handles_def)
  next
    case False
    then show ?thesis
      using Cons.IH[OF rest, of m] h by (simp add: strip_handles_def)
  qed
qed

lemma strip_own_handles:
  assumes "\<forall>k0\<in>hook_ids m. k0 < k"
  shows "hooks_of (strip_handles j
      [(j, Forward_hooks, k), (j, Forward_pre_hooks, k + 1), (j, Backward_hooks, k + 2)]
      (m\<lparr>forward_hooks := forward_hooks m @ [(k, F_hook)],
         forward_pre_hooks := forward_pre_hooks m @ [(k + 1, Fp_hook)],
         backward_hooks := backward_hooks m @ [(k + 2, B_hook)]\<rparr>)) = hooks_of m"
proof -
  have f: "filter (\<lambda>h. fst h \<noteq> k') xs = xs" if "\<forall>h\<in>set xs. fst h < k" "k \<le> k'"
    for xs :: "(nat \<times> hook) list" and k'
    using that by (induction xs) auto
  have "\<forall>h\<in>set (forward_hooks m). fst h < k" "\<forall>h\<in>set (forward_pre_hooks m). fst h < k"
    "\<forall>h\<in>set (backward_hooks m). fst h < k"
    using assms by (auto simp: hook_ids_def)
  then show ?thesis
    by (simp add: strip_handles_def hooks_of_def f)
qed


lemma handles_account_init:
  assumes "\<forall>m\<in>set (modules w). \<forall>k\<in>hook_ids m. k < next_id w"
    and "\<forall>(i, d, k)\<in>set (handles self). k < next_id w \<and> (\<forall>m\<in>set (modules w). k \<notin> hook_ids m)"
  shows "handles_account w (self, w)"
proof -
  have "strip_handles j (handles self) (modules w ! j) = modules w ! j" if "j < length (modules w)" for j
    using assms(2) that by (intro strip_handles_stale) (auto simp: nth_mem)
  then show ?thesis
    using assms by (auto simp: handles_account_def nth_mem)
qed

lemma handles_account_register:
  assumes acc: "handles_account w0 (self, w)" and i: "i < length (modules w)"
  shows "handles_account w0 (register_hooks i (self, w))"
proof (cases "length (backward_hooks (modules w ! i)) > 0
    \<or> NON_LINEAR_OPS self (type_of (layer (modules w ! i))) = None")
  case True
  then show ?thesis using acc by (auto simp: register_hooks_def Let_def)
next
  case False
  define m where "m = modules w ! i"
  define k where "k = next_id w"
  define m' where "m' = m\<lparr>forward_hooks := forward_hooks m @ [(k, F_hook)],
         forward_pre_hooks := forward_pre_hooks m @ [(k + 1, Fp_hook)],
         backward_hooks := backward_hooks m @ [(k + 2, B_hook)]\<rparr>"
  define new where
    "new = [(i, Forward_hooks, k), (i, Forward_pre_hooks, k + 1), (i, Backward_hooks, k + 2)]"
  define self' where "self' = self\<lparr>handles := handles self @ new\<rparr>"
  define w' where "w' = w\<lparr>modules := (modules w)[i := m'], next_id := k + 3\<rparr>"
  have reg: "register_hooks i (self, w) = (self', w')"
    using False by (auto simp: register_hooks_def Let_def m_def k_def m'_def new_def self'_def w'_def)
  from acc have len: "length (modules w) = length (modules w0)"
    and ids: "\<forall>j<length (modules w). \<forall>k0\<in>hook_ids (modules w ! j). k0 < k"
    and hid: "\<forall>(i, d, k0)\<in>set (handles self). k0 < k"
    and str: "\<forall>j<length (modules w).
        hooks_of (strip_handles j (handles self) (modules w ! j)) = hooks_of (modules w0 ! j)"
    by (auto simp: handles_account_def k_def)
  have ids_m': "hook_ids m' = hook_ids m \<union> {k, k + 1, k + 2}"
    by (auto simp: hook_ids_def m'_def)
  have a: "length (modules w') = length (modules w0)" using len by (simp add: w'_def)
  have b: "\<forall>k0\<in>hook_ids (modules w' ! j). k0 < next_id w'" if "j < length (modules w')" for j
  proof (cases "j = i")
    case True
    have "\<forall>k0\<in>hook_ids m. k0 < k" using ids i by (simp add: m_def)
    then have "\<forall>k0\<in>hook_ids m'. k0 < k + 3" unfolding ids_m' by fastforce
    then show ?thesis using True i by (simp add: w'_def)
  next
    case False
    have "\<forall>k0\<in>hook_ids (modules w ! j). k0 < k" using ids that by (simp add: w'_def)
    then have "\<forall>k0\<in>hook_ids (modules w ! j). k0 < k + 3" by fastforce
    then show ?thesis using False by (simp add: w'_def)
  qed
  have c: "\<forall>(i, d, k0)\<in>set (handles self'). k0 < next_id w'"
    using hid by (auto simp: self'_def new_def w'_def)
  have d: "hooks_of (strip_handles j (handles self') (modules w' ! j)) = hooks_of (modules w0 ! j)"
    if j: "j < length (modules w')" for j
  proof (cases "j = i")
    case True
    have s1: "strip_handles i (handles self) m' =
        (strip_handles i (handles self) m)
        \<lparr>forward_hooks := forward_hooks (strip_handles i (handles self) m) @ [(k, F_hook)],
         forward_pre_hooks := forward_pre_hooks (strip_handles i (handles self) m) @ [(k + 1, Fp_hook)],
         backward_hooks := backward_hooks (strip_handles i (handles self) m) @ [(k + 2, B_hook)]\<rparr>"
      unfolding m'_def using hid by (rule strip_handles_installed)
    have bound: "\<forall>k0\<in>hook_ids (strip_handles i (handles self) m). k0 < k"
      using hook_ids_strip[of i "handles self" m] ids i by (auto simp: m_def)
    have s2: "hooks_of (strip_handles i new
        ((strip_handles i (handles self) m)
        \<lparr>forward_hooks := forward_hooks (strip_handles i (handles self) m) @ [(k, F_hook)],
         forward_pre_hooks := forward_pre_hooks (strip_handles i (handles self) m) @ [(k + 1, Fp_hook)],
         backward_hooks := backward_hooks (strip_handles i (handles self) m) @ [(k + 2, B_hook)]\<rparr>))
        = hooks_of (strip_handles i (handles self) m)"
      unfolding new_def using bound by (rule strip_own_handles)
    have "hooks_of (strip_handles i new (strip_handles i (handles self) m'))
        = hooks_of (strip_handles i (handles self) m)"
      by (simp only: s1 s2)
    then show ?thesis
      using True str i by (simp add: self'_def w'_def strip_handles_append m_def)
  next
    case False
    have "strip_handles j new m0 = m0" for m0
      using False by (intro strip_handles_other) (auto simp: new_def)
    then show ?thesis
      using False str j by (simp add: self'_def w'_def strip_handles_append)
  qed
  show ?thesis
    unfolding reg using a b c d by (auto simp: handles_account_def)
qed

lemma register_hooks_length:
  "length (modules (snd (register_hooks i sw))) = length (modules (snd sw))"
  by (cases sw) (auto simp: register_hooks_def Let_def)

lemma handles_account_fold:
  assumes "handles_account w0 sw" and "n \<le> length (modules (snd sw))"
  shows "handles_account w0 (foldl (\<lambda>sw i. register_hooks i sw) sw [0 ..< n])
    \<and> length (modules (snd (foldl (\<lambda>sw i. register_hooks i sw) sw [0 ..< n])))
        = length (modules (snd sw))"
  using assms(2)
proof (induction n)
  case 0
  then show ?case using assms(1) by simp
next
  case (Suc n)
  let ?sw = "foldl (\<lambda>sw i. register_hooks i sw) sw [0 ..< n]"
  have IH: "handles_account w0 ?sw" "length (modules (snd ?sw)) = length (modules (snd sw))"
    using Suc by simp_all
  have "handles_account w0 (register_hooks n ?sw)"
    using handles_account_register[of w0 "fst ?sw" "snd ?sw" n] IH Suc.prems by simp
  then show ?case
    using IH(2) by (simp add: register_hooks_length)
qed

lemma handles_account_apply:
  "handles_account w0 (self, w) \<Longrightarrow> handles_account w0 (apply_register_hooks (self, w))"
  using handles_account_fold[of w0 "(self, w)" "length (modules w)"]
  by (simp add: apply_register_hooks_def)

subsection \<open>The passes leave the hooks alone\<close>

lemma call_module_hooks: "hooks_of (fst (call_module m x)) = hooks_of m"
  by (auto simp: call_module_def Let_def hooks_of_def fp_hook_def f_hook_def split: sum.splits)

lemma forward_hooks_unchanged:
  "map hooks_of (fst (forward ms x)) = map hooks_of ms"
proof (induction ms arbitrary: x)
  case Nil
  then show ?case by simp
next
  case (Cons m ms)
  show ?case
  proof (cases "call_module m x")
    case (Pair m' r)
    then have h: "hooks_of m' = hooks_of m" using call_module_hooks[of m x] by simp
    show ?thesis
    proof (cases r)
      case (Inl e)
      then show ?thesis using Pair h by simp
    next
      case (Inr y)
      then show ?thesis
        using Pair h Cons.IH[of y] by (auto split: prod.splits sum.splits)
    qed
  qed
qed

lemma gradient_pass_hooks:
  "map hooks_of (fst (gradient_pass self ms xs refs t)) = map hooks_of ms"
  using forward_hooks_unchanged[of ms "map concat (xs @ refs)"]
  by (auto simp: gradient_pass_def split: prod.splits sum.splits)


text \<open>
  Claim C9. Take a model whose hook ids are all below the handle counter, and an engine
  whose handles (left from earlier calls, if any) point at no hook that is still
  installed. Then after \<^verbatim>\<open>attribute\<close>, whatever it returns or raises (the failed assertion,
  an error of the forward or backward pass, or the gradients), every module carries
  exactly the hooks it carried before the call: each hook installed during the call has
  been removed.
\<close>

theorem attribute_removes_hooks:
  assumes "\<forall>m\<in>set (modules w). \<forall>k\<in>hook_ids m. k < next_id w"
    and "\<forall>(i, d, k)\<in>set (handles self). k < next_id w \<and> (\<forall>m\<in>set (modules w). k \<notin> hook_ids m)"
    and "attribute self w xs refs t = (res, self', w', evs)"
  shows "map hooks_of (modules w') = map hooks_of (modules w)"
proof (cases "shape3 xs \<noteq> shape3 refs")
  case True
  then show ?thesis using assms(3) by (simp add: attribute_def)
next
  case False
  obtain self1 w1 where reg: "apply_register_hooks (self, w) = (self1, w1)"
    by (cases "apply_register_hooks (self, w)")
  obtain ms2 body where pass: "gradient_pass self1 (modules w1) xs refs t = (ms2, body)"
    by (cases "gradient_pass self1 (modules w1) xs refs t")
  have w': "w' = foldl (\<lambda>w h. remove h w) (w1\<lparr>modules := ms2\<rparr>) (handles self1)"
    using assms(3) False reg pass by (auto simp: attribute_def Let_def)
  have acc: "handles_account w (self1, w1)"
    using handles_account_apply[OF handles_account_init[OF assms(1,2)]] reg by simp
  then have len1: "length (modules w1) = length (modules w)"
    and str: "\<forall>j<length (modules w1).
        hooks_of (strip_handles j (handles self1) (modules w1 ! j)) = hooks_of (modules w ! j)"
    by (auto simp: handles_account_def)
  have hk: "map hooks_of ms2 = map hooks_of (modules w1)"
    using gradient_pass_hooks[of self1 "modules w1" xs refs t] pass by simp
  then have len2: "length ms2 = length (modules w1)"
    using map_eq_imp_length_eq by blast
  have len': "length (modules w') = length (modules w)"
    using len1 len2 by (simp add: w' foldl_remove_length)
  have "hooks_of (modules w' ! j) = hooks_of (modules w ! j)" if j: "j < length (modules w)" for j
  proof -
    have "modules w' ! j = strip_handles j (handles self1) (ms2 ! j)"
      unfolding w' using j len1 len2 by (subst foldl_remove_nth) simp_all
    moreover have "hooks_of (ms2 ! j) = hooks_of (modules w1 ! j)"
      using hk j len1 len2 by (metis nth_map)
    ultimately show ?thesis
      using hooks_of_strip_cong[of "ms2 ! j" "modules w1 ! j" j "handles self1"] str j len1
      by simp
  qed
  then show ?thesis
    using len' by (intro nth_equalityI) simp_all
qed


theorem attribute_removes_hooks_witness:
  "map hooks_of (modules (snd (apply_register_hooks
      ((DeepLiftShap_init None (1 / 10 ^ 10) (1 / 10000) False),
       \<lparr>modules =
          [\<lparr>layer = ReLU, forward_hooks = [(3, Foreign_hook)], forward_pre_hooks = [],
            backward_hooks = [], module_input = None, module_output = None\<rparr>,
           \<lparr>layer = Linear [[1, 2, 3]] [0], forward_hooks = [], forward_pre_hooks = [],
            backward_hooks = [], module_input = None, module_output = None\<rparr>],
        next_id = 7\<rparr>))))
     = [([(3, Foreign_hook), (7, F_hook)], [(8, Fp_hook)], [(9, B_hook)]), ([], [], [])]
   \<and> fst (attribute (DeepLiftShap_init None (1 / 10 ^ 10) (1 / 10000) False)
       \<lparr>modules =
          [\<lparr>layer = ReLU, forward_hooks = [(3, Foreign_hook)], forward_pre_hooks = [],
            backward_hooks = [], module_input = None, module_output = None\<rparr>,
           \<lparr>layer = Linear [[1, 2, 3]] [0], forward_hooks = [], forward_pre_hooks = [],
            backward_hooks = [], module_input = None, module_output = None\<rparr>],
        next_id = 7\<rparr>
       [[[1], [0]]] [[[0], [1]]] 0)
     = Inl (RuntimeError ''mat1 and mat2 shapes cannot be multiplied'')
   \<and> map hooks_of (modules (fst (snd (snd (attribute (DeepLiftShap_init None (1 / 10 ^ 10) (1 / 10000) False)
       \<lparr>modules =
          [\<lparr>layer = ReLU, forward_hooks = [(3, Foreign_hook)], forward_pre_hooks = [],
            backward_hooks = [], module_input = None, module_output = None\<rparr>,
           \<lparr>layer = Linear [[1, 2, 3]] [0], forward_hooks = [], forward_pre_hooks = [],
            backward_hooks = [], module_input = None, module_output = None\<rparr>],
        next_id = 7\<rparr>
       [[[1], [0]]] [[[0], [1]]] 0)))))
     = [([(3, Foreign_hook)], [], []), ([], [], [])]
   \<and> map module_input (modules (fst (snd (snd (attribute (DeepLiftShap_init None (1 / 10 ^ 10) (1 / 10000) False)
       \<lparr>modules =
          [\<lparr>layer = ReLU, forward_hooks = [(3, Foreign_hook)], forward_pre_hooks = [],
            backward_hooks = [], module_input = None, module_output = None\<rparr>,
           \<lparr>layer = Linear [[1, 2, 3]] [0], forward_hooks = [], forward_pre_hooks = [],
            backward_hooks = [], module_input = None, module_output = None\<rparr>],
        next_id = 7\<rparr>
       [[[1], [0]]] [[[0], [1]]] 0)))))
     = [Some [[1, 0], [0, 1]], None]"
proof -
  define w0 where "w0 = \<lparr>modules =
          [\<lparr>layer = ReLU, forward_hooks = [(3, Foreign_hook)], forward_pre_hooks = [],
            backward_hooks = [], module_input = None, module_output = None\<rparr>,
           \<lparr>layer = Linear [[1, 2, 3]] [0], forward_hooks = [], forward_pre_hooks = [],
            backward_hooks = [], module_input = None, module_output = None\<rparr>],
        next_id = 7\<rparr>"
  define self0 where "self0 = (DeepLiftShap_init None (1 / 10 ^ 10) (1 / 10000) False)"
  define a where "a = attribute self0 w0 [[[1], [0]]] [[[0], [1]]] 0"
  have h1: "\<forall>m\<in>set (modules w0). \<forall>k\<in>hook_ids m. k < next_id w0"
    by (simp add: w0_def hook_ids_def)
  have h2: "\<forall>(i, d, k)\<in>set (handles self0). k < next_id w0 \<and> (\<forall>m\<in>set (modules w0). k \<notin> hook_ids m)"
    by (simp add: self0_def DeepLiftShap_init_def)
  have h3: "attribute self0 w0 [[[1], [0]]] [[[0], [1]]] 0
      = (fst a, fst (snd a), fst (snd (snd a)), snd (snd (snd a)))"
    by (simp add: a_def)
  have kept: "map hooks_of (modules (fst (snd (snd a)))) = map hooks_of (modules w0)"
    using h1 h2 h3 by (rule attribute_removes_hooks)
  have reg: "map hooks_of (modules (snd (apply_register_hooks (self0, w0))))
     = [([(3, Foreign_hook), (7, F_hook)], [(8, Fp_hook)], [(9, B_hook)]), ([], [], [])]"
    unfolding w0_def self0_def by code_simp
  have res: "fst a = Inl (RuntimeError ''mat1 and mat2 shapes cannot be multiplied'')"
    unfolding a_def w0_def self0_def
    by (simp add: attribute_def apply_register_hooks_def register_hooks_def
        numeral_2_eq_2 Let_def DeepLiftShap_init_def gradient_pass_def call_module_def has_hook_def
        fp_hook_def f_hook_def forward_layer_def remove_def shape3_def hooks_of_def)
  have cache: "map module_input (modules (fst (snd (snd a)))) = [Some [[1, 0], [0, 1]], None]"
    unfolding a_def w0_def self0_def
    by (simp add: attribute_def apply_register_hooks_def register_hooks_def
        numeral_2_eq_2 Let_def DeepLiftShap_init_def gradient_pass_def call_module_def has_hook_def
        fp_hook_def f_hook_def forward_layer_def remove_def shape3_def hooks_of_def)
  have orig: "map hooks_of (modules w0) = [([(3, Foreign_hook)], [], []), ([], [], [])]"
    by (simp add: w0_def hooks_of_def)
  show ?thesis
    using reg res cache kept[unfolded orig]
    unfolding a_def w0_def self0_def by (intro conjI)
qed



subsection \<open>Shapes along the passes\<close>

lemma forward_layer_length: "forward_layer l x = Inr y \<Longrightarrow> length y = length x"
  by (auto simp: forward_layer_def split: if_splits)

lemma call_module_result: "snd (call_module m x) = forward_layer (layer m) x"
  by (auto simp: call_module_def Let_def fp_hook_def split: sum.splits)


lemma forward_length:
  "forward ms x = (ms', Inr (tape, out)) \<Longrightarrow>
   length out = length x \<and> length tape = length ms \<and> length ms' = length ms"
proof (induction ms arbitrary: x ms' tape out)
  case Nil
  then show ?case by simp
next
  case (Cons m ms)
  obtain m' r where cm: "call_module m x = (m', r)" by (cases "call_module m x")
  with Cons.prems obtain y where r: "r = Inr y" by (cases r) auto
  obtain ms1 r1 where f: "forward ms y = (ms1, r1)" by (cases "forward ms y")
  with Cons.prems cm r obtain tape1 where r1: "r1 = Inr (tape1, out)"
    and eqs: "ms' = m' # ms1" "tape = (x, y) # tape1"
    by (cases r1) (auto split: prod.splits)
  have "length y = length x"
    using call_module_result[of m x] cm r by (simp add: forward_layer_length)
  then show ?case
    using Cons.IH[of y ms1 tape1 out] f r1 eqs by simp
qed

lemma select_column_length: "select_column out t = Inr y \<Longrightarrow> length y = length out"
  by (induction out arbitrary: y) (auto split: sum.splits)

lemma shape3_length: "shape3 s = shape3 t \<Longrightarrow> length s = length t"
  by (simp add: shape3_def)

subsection \<open>The engine object\<close>

lemma register_hooks_self:
  "register_hooks i (self, w) = (self', w') \<Longrightarrow>
   eps self' = eps self \<and> DeepLiftShap.warning_threshold self' = DeepLiftShap.warning_threshold self
   \<and> verbose self' = verbose self \<and> NON_LINEAR_OPS self' = NON_LINEAR_OPS self"
  by (auto simp: register_hooks_def Let_def split: if_splits)

lemma register_hooks_threshold:
  "register_hooks i (self\<lparr>DeepLiftShap.warning_threshold := c\<rparr>, w)
   = (case register_hooks i (self, w) of (self', w') \<Rightarrow> (self'\<lparr>DeepLiftShap.warning_threshold := c\<rparr>, w'))"
  by (auto simp: register_hooks_def Let_def)

lemma fold_register_hooks_self:
  "foldl (\<lambda>sw i. register_hooks i sw) (self, w) is = (self', w') \<Longrightarrow>
   eps self' = eps self \<and> DeepLiftShap.warning_threshold self' = DeepLiftShap.warning_threshold self
   \<and> verbose self' = verbose self \<and> NON_LINEAR_OPS self' = NON_LINEAR_OPS self"
proof (induction "is" arbitrary: self' w' rule: rev_induct)
  case Nil
  then show ?case by simp
next
  case (snoc i "is")
  obtain s1 w1 where f: "foldl (\<lambda>sw i. register_hooks i sw) (self, w) is = (s1, w1)"
    by (cases "foldl (\<lambda>sw i. register_hooks i sw) (self, w) is")
  with snoc.prems have "register_hooks i (s1, w1) = (self', w')" by simp
  from register_hooks_self[OF this] snoc.IH[OF f] show ?case by simp
qed

lemma fold_register_hooks_threshold:
  "foldl (\<lambda>sw i. register_hooks i sw) (self\<lparr>DeepLiftShap.warning_threshold := c\<rparr>, w) is
   = (case foldl (\<lambda>sw i. register_hooks i sw) (self, w) is of
        (self', w') \<Rightarrow> (self'\<lparr>DeepLiftShap.warning_threshold := c\<rparr>, w'))"
proof (induction "is" rule: rev_induct)
  case Nil
  then show ?case by simp
next
  case (snoc i "is")
  obtain s1 w1 where f: "foldl (\<lambda>sw i. register_hooks i sw) (self, w) is = (s1, w1)"
    by (cases "foldl (\<lambda>sw i. register_hooks i sw) (self, w) is")
  show ?case
    using snoc.IH f register_hooks_threshold[where i=i and self=s1 and c=c and w=w1] by simp
qed

lemma apply_register_hooks_self:
  "apply_register_hooks (self, w) = (self', w') \<Longrightarrow>
   eps self' = eps self \<and> DeepLiftShap.warning_threshold self' = DeepLiftShap.warning_threshold self
   \<and> verbose self' = verbose self \<and> NON_LINEAR_OPS self' = NON_LINEAR_OPS self"
  unfolding apply_register_hooks_def by (rule fold_register_hooks_self) simp

lemma apply_register_hooks_threshold:
  "apply_register_hooks (self\<lparr>DeepLiftShap.warning_threshold := c\<rparr>, w)
   = (case apply_register_hooks (self, w) of
        (self', w') \<Rightarrow> (self'\<lparr>DeepLiftShap.warning_threshold := c\<rparr>, w'))"
  unfolding apply_register_hooks_def by (simp add: fold_register_hooks_threshold)

lemma b_hook_threshold:
  "b_hook (self\<lparr>DeepLiftShap.warning_threshold := c\<rparr>) m gi go = b_hook self m gi go"
  by (simp add: b_hook_def split: option.splits rule.splits)

lemma backward_threshold:
  "backward (self\<lparr>DeepLiftShap.warning_threshold := c\<rparr>) ms tape g = backward self ms tape g"
  by (induction self ms tape g rule: backward.induct)
    (simp_all add: b_hook_threshold Let_def split: sum.splits)

lemma gradient_pass_threshold:
  "gradient_pass (self\<lparr>DeepLiftShap.warning_threshold := c\<rparr>) ms xs refs t
   = gradient_pass self ms xs refs t"
  by (simp add: gradient_pass_def backward_threshold split: prod.splits sum.splits)


lemma gradient_pass_success:
  assumes "length refs = length xs"
    and "forward ms (map concat (xs @ refs)) = (ms2, Inr (tape, out))"
    and "select_column out t = Inr y"
    and "backward self ms2 tape (grad_of_column_sum out t) = Inr g"
  shows "length y = 2 * length xs"
    and "gradient_pass self ms xs refs t =
      (ms2, Inr (map2 unflatten_like xs (take (length xs) g),
                 map2 (\<lambda>d s. \<bar>d - s\<bar>)
                   (map2 (-) (take (length xs) y) (drop (length xs) y))
                   (map (\<lambda>t. sum_list (concat t))
                      (mul3 (sub3 xs refs) (map2 unflatten_like xs (take (length xs) g))))))"
proof -
  show ly: "length y = 2 * length xs"
    using forward_length[OF assms(2)] select_column_length[OF assms(3)] assms(1) by simp
  have ch: "chunk2 y = (take (length xs) y, drop (length xs) y)"
    using ly by (rule chunk2_even)
  show "gradient_pass self ms xs refs t =
      (ms2, Inr (map2 unflatten_like xs (take (length xs) g),
                 map2 (\<lambda>d s. \<bar>d - s\<bar>)
                   (map2 (-) (take (length xs) y) (drop (length xs) y))
                   (map (\<lambda>t. sum_list (concat t))
                      (mul3 (sub3 xs refs) (map2 unflatten_like xs (take (length xs) g))))))"
    unfolding gradient_pass_def assms(2) by (simp only: prod.case sum.case assms(3,4) Let_def ch fst_conv snd_conv)
qed

lemma attribute_success:
  assumes "shape3 xs = shape3 refs"
    and "apply_register_hooks (self, w) = (self1, w1)"
    and "gradient_pass self1 (modules w1) xs refs t = (ms2, Inr (gradients, deltas))"
  shows "attribute self w xs refs t =
     (Inr gradients, self1, foldl (\<lambda>w h. remove h w) (w1\<lparr>modules := ms2\<rparr>) (handles self1),
      (if \<exists>d\<in>set deltas. d > DeepLiftShap.warning_threshold self
       then [RuntimeWarning deltas] else [])
      @ (if verbose self then [Printed deltas] else []))"
proof -
  have same: "DeepLiftShap.warning_threshold self1 = DeepLiftShap.warning_threshold self"
    "verbose self1 = verbose self"
    using apply_register_hooks_self[OF assms(2)] by simp_all
  show ?thesis
    unfolding attribute_def using assms(1)
    by (simp only: assms(2,3) prod.case sum.case Let_def same list_ex_iff) simp
qed

text \<open>
  Claim C8. Let the call pass its assertion, and let the forward and backward pass
  succeed with target outputs \<open>y\<close> for the batch of examples followed by references and
  gradient \<open>g\<close> with respect to that batch. Then \<^verbatim>\<open>attribute\<close> computes one convergence
  delta for every pair, \<open>|(y_example - y_reference) - sum((X - reference) * gradient)|\<close>;
  it issues a \<open>RuntimeWarning\<close> (carrying the deltas) if and only if some delta exceeds
  \<^verbatim>\<open>warning_threshold\<close>; and it returns the gradients in either case: the returned
  tensor is the same for every value of the threshold.
\<close>

theorem attribute_convergence_warning:
  assumes "shape3 xs = shape3 refs"
    and "apply_register_hooks (self, w) = (self1, w1)"
    and "forward (modules w1) (map concat (xs @ refs)) = (ms2, Inr (tape, out))"
    and "select_column out t = Inr y"
    and "backward self1 ms2 tape (grad_of_column_sum out t) = Inr g"
  shows "let gradients = map2 unflatten_like xs (take (length xs) g);
             deltas = map2 (\<lambda>d s. \<bar>d - s\<bar>)
                        (map2 (-) (take (length xs) y) (drop (length xs) y))
                        (map (\<lambda>t. sum_list (concat t)) (mul3 (sub3 xs refs) gradients))
         in length y = 2 * length xs
          \<and> fst (attribute self w xs refs t) = Inr gradients
          \<and> snd (snd (snd (attribute self w xs refs t)))
              = (if \<exists>d\<in>set deltas. d > DeepLiftShap.warning_threshold self
                 then [RuntimeWarning deltas] else [])
                @ (if verbose self then [Printed deltas] else [])
          \<and> (RuntimeWarning deltas \<in> set (snd (snd (snd (attribute self w xs refs t))))
               \<longleftrightarrow> (\<exists>d\<in>set deltas. d > DeepLiftShap.warning_threshold self))
          \<and> (\<forall>c. fst (attribute (self\<lparr>DeepLiftShap.warning_threshold := c\<rparr>) w xs refs t)
                 = Inr gradients)"
proof -
  define gradients where "gradients = map2 unflatten_like xs (take (length xs) g)"
  define deltas where "deltas = map2 (\<lambda>d s. \<bar>d - s\<bar>)
      (map2 (-) (take (length xs) y) (drop (length xs) y))
      (map (\<lambda>t. sum_list (concat t)) (mul3 (sub3 xs refs) gradients))"
  have lr: "length refs = length xs"
    using assms(1)[symmetric] by (rule shape3_length)
  note gp = gradient_pass_success[OF lr assms(3,4,5)]
  have pass: "gradient_pass self1 (modules w1) xs refs t = (ms2, Inr (gradients, deltas))"
    unfolding gradients_def deltas_def by (rule gp(2))
  note att = attribute_success[OF assms(1,2) pass]
  have ret: "fst (attribute self w xs refs t) = Inr gradients"
    unfolding att by simp
  have evs: "snd (snd (snd (attribute self w xs refs t)))
      = (if \<exists>d\<in>set deltas. d > DeepLiftShap.warning_threshold self
         then [RuntimeWarning deltas] else [])
        @ (if verbose self then [Printed deltas] else [])"
    unfolding att by simp
  have iff: "RuntimeWarning deltas \<in> set (snd (snd (snd (attribute self w xs refs t))))
      \<longleftrightarrow> (\<exists>d\<in>set deltas. d > DeepLiftShap.warning_threshold self)"
    unfolding evs by auto
  have any: "fst (attribute (self\<lparr>DeepLiftShap.warning_threshold := c\<rparr>) w xs refs t)
      = Inr gradients" for c
  proof -
    have r: "apply_register_hooks (self\<lparr>DeepLiftShap.warning_threshold := c\<rparr>, w)
        = (self1\<lparr>DeepLiftShap.warning_threshold := c\<rparr>, w1)"
      by (simp add: apply_register_hooks_threshold assms(2))
    have p: "gradient_pass (self1\<lparr>DeepLiftShap.warning_threshold := c\<rparr>) (modules w1) xs refs t
        = (ms2, Inr (gradients, deltas))"
      by (simp only: gradient_pass_threshold pass)
    show ?thesis
      unfolding attribute_success[OF assms(1) r p] by simp
  qed
  show ?thesis
    unfolding Let_def gradients_def[symmetric] deltas_def[symmetric]
  proof (intro conjI allI)
    show "length y = 2 * length xs" by (rule gp(1))
    show "fst (attribute self w xs refs t) = Inr gradients" by (rule ret)
    show "snd (snd (snd (attribute self w xs refs t)))
        = (if \<exists>d\<in>set deltas. d > DeepLiftShap.warning_threshold self
           then [RuntimeWarning deltas] else [])
          @ (if verbose self then [Printed deltas] else [])" by (rule evs)
    show "RuntimeWarning deltas \<in> set (snd (snd (snd (attribute self w xs refs t))))
        \<longleftrightarrow> (\<exists>d\<in>set deltas. d > DeepLiftShap.warning_threshold self)" by (rule iff)
    show "fst (attribute (self\<lparr>DeepLiftShap.warning_threshold := c\<rparr>) w xs refs t)
        = Inr gradients" for c by (rule any)
  qed
qed


theorem attribute_convergence_warning_witness:
  "fst (attribute (DeepLiftShap_init None (1 / 10 ^ 10) (1 / 10000) False)
       \<lparr>modules =
          [\<lparr>layer = ReLU, forward_hooks = [], forward_pre_hooks = [],
            backward_hooks = [(0, Foreign_hook)], module_input = None, module_output = None\<rparr>,
           \<lparr>layer = Linear [[1, 1]] [0], forward_hooks = [], forward_pre_hooks = [],
            backward_hooks = [], module_input = None, module_output = None\<rparr>],
        next_id = 1\<rparr>
       [[[1], [- 1]]] [[[- 1], [1]]] 0) = Inr [[[1], [0]]]
   \<and> snd (snd (snd (attribute (DeepLiftShap_init None (1 / 10 ^ 10) (1 / 10000) False)
       \<lparr>modules =
          [\<lparr>layer = ReLU, forward_hooks = [], forward_pre_hooks = [],
            backward_hooks = [(0, Foreign_hook)], module_input = None, module_output = None\<rparr>,
           \<lparr>layer = Linear [[1, 1]] [0], forward_hooks = [], forward_pre_hooks = [],
            backward_hooks = [], module_input = None, module_output = None\<rparr>],
        next_id = 1\<rparr>
       [[[1], [- 1]]] [[[- 1], [1]]] 0))) = [RuntimeWarning [2]]
   \<and> fst (attribute (DeepLiftShap_init None (1 / 10 ^ 10) (1 / 10000) False\<lparr>DeepLiftShap.warning_threshold := 5\<rparr>)
       \<lparr>modules =
          [\<lparr>layer = ReLU, forward_hooks = [], forward_pre_hooks = [],
            backward_hooks = [(0, Foreign_hook)], module_input = None, module_output = None\<rparr>,
           \<lparr>layer = Linear [[1, 1]] [0], forward_hooks = [], forward_pre_hooks = [],
            backward_hooks = [], module_input = None, module_output = None\<rparr>],
        next_id = 1\<rparr>
       [[[1], [- 1]]] [[[- 1], [1]]] 0) = Inr [[[1], [0]]]"
proof -
  define w0 where "w0 = \<lparr>modules =
          [\<lparr>layer = ReLU, forward_hooks = [], forward_pre_hooks = [],
            backward_hooks = [(0, Foreign_hook)], module_input = None, module_output = None\<rparr>,
           \<lparr>layer = Linear [[1, 1]] [0], forward_hooks = [], forward_pre_hooks = [],
            backward_hooks = [], module_input = None, module_output = None\<rparr>],
        next_id = 1\<rparr>"
  define self0 where "self0 = (DeepLiftShap_init None (1 / 10 ^ 10) (1 / 10000) False)"
  have thr: "DeepLiftShap.warning_threshold self0 = 1 / 10000" "verbose self0 = False"
    by (simp_all add: self0_def DeepLiftShap_init_def)
  have ops: "NON_LINEAR_OPS self0 nn_Linear = None"
    by (simp add: self0_def DeepLiftShap_init_def)
  have h1: "shape3 [[[1], [- 1]]] = shape3 [[[- 1], [1::real]]]"
    by (simp add: shape3_def)
  have h2: "apply_register_hooks (self0, w0) = (self0, w0)"
    by (simp add: apply_register_hooks_def register_hooks_def numeral_2_eq_2 Let_def w0_def ops)
  have h3: "forward (modules w0) (map concat ([[[1], [- 1]]] @ [[[- 1], [1]]]))
      = (modules w0, Inr ([([[1, - 1], [- 1, 1]], [[1, 0], [0, 1]]), ([[1, 0], [0, 1]], [[1], [1]])],
                          [[1], [1]]))"
    by (simp add: w0_def call_module_def has_hook_def forward_layer_def dot_def)
  have h4: "select_column [[1], [1]] 0 = Inr [1, 1]"
    by (simp add: column_index_def)
  have h5: "backward self0 (modules w0)
        [([[1, - 1], [- 1, 1]], [[1, 0], [0, 1]]), ([[1, 0], [0, 1]], [[1], [1]])]
        (grad_of_column_sum [[1], [1]] 0) = Inr [[1, 0], [0, 1]]"
    by (simp add: w0_def has_hook_def backward_layer_def grad_of_column_sum_def column_index_def)
  note t = attribute_convergence_warning[OF h1 h2 h3 h4 h5]
  have g: "map2 unflatten_like [[[1], [- 1::real]]] (take (length [[[1], [- 1::real]]]) [[1, 0], [0, 1::real]])
      = [[[1], [0]]]"
    by simp
  have d: "map2 (\<lambda>d s. \<bar>d - s\<bar>)
      (map2 (-) (take (length [[[1], [- 1::real]]]) [1, 1]) (drop (length [[[1], [- 1::real]]]) [1, 1]))
      (map (\<lambda>t. sum_list (concat t)) (mul3 (sub3 [[[1], [- 1]]] [[[- 1], [1]]]) [[[1], [0]]]))
      = [2::real]"
    by (simp add: mul3_def sub3_def)
  from t have "fst (attribute self0 w0 [[[1], [- 1]]] [[[- 1], [1]]] 0) = Inr [[[1], [0]]]
      \<and> snd (snd (snd (attribute self0 w0 [[[1], [- 1]]] [[[- 1], [1]]] 0))) = [RuntimeWarning [2]]
      \<and> fst (attribute (self0\<lparr>DeepLiftShap.warning_threshold := 5\<rparr>) w0 [[[1], [- 1]]] [[[- 1], [1]]] 0)
          = Inr [[[1], [0]]]"
    unfolding Let_def g d thr by simp
  then show ?thesis
    unfolding w0_def self0_def by (simp add: DeepLiftShap_init_def)
qed


subsection \<open>Dense layers are linear\<close>

lemma dot_Nil [simp]: "dot [] v = 0" "dot u [] = 0"
  by (simp_all add: dot_def)

lemma dot_Cons [simp]: "dot (a # u) (c # v) = a * c + dot u v"
  by (simp add: dot_def)














subsection \<open>A model of dense layers only\<close>










subsection \<open>Examples and their flattened rows\<close>













section \<open>Properties of the batched driver\<close>

text \<open>
  Claim C10. For an input without examples the loop over the pairs has nothing to run
  over: it returns the local variables as they were, the list of attributions is still
  empty, stacking it fails, and \<^verbatim>\<open>deep_lift_shap\<close> raises that \<open>RuntimeError\<close> instead of
  returning an empty tensor.
\<close>

theorem deep_lift_shap_no_examples:
  assumes "X a = []"
  shows "pairs_loop a (shuffles a) (length (X a) * shuffles a)
           [0 ..< length (X a) * shuffles a] st = Inr st
     \<and> (\<exists>msg. stack [] = Inl (RuntimeError msg))
     \<and> (\<exists>msg. deep_lift_shap a w g = Inl (RuntimeError msg))"
  using assms by (simp add: deep_lift_shap_def stack_def)

theorem deep_lift_shap_no_examples_witness:
  "X \<lparr>X = [], target = 0, batch_size = 32, references = Reference_tensor [], n_shuffles = 20,
      return_references = False, hypothetical = False, warning_threshold = 1 / 10000,
      additional_nonlinear_ops = None, print_convergence_deltas = False, raw_outputs = False,
      random_state = No_seed\<rparr> = []
   \<and> (\<exists>msg. deep_lift_shap
          \<lparr>X = [], target = 0, batch_size = 32, references = Reference_tensor [], n_shuffles = 20,
           return_references = False, hypothetical = False, warning_threshold = 1 / 10000,
           additional_nonlinear_ops = None, print_convergence_deltas = False, raw_outputs = False,
           random_state = No_seed\<rparr>
          \<lparr>modules = [\<lparr>layer = Linear [[1, - 1, 0, 0]] [0], forward_hooks = [],
                        forward_pre_hooks = [], backward_hooks = [], module_input = None,
                        module_output = None\<rparr>], next_id = 0\<rparr>
          () = Inl (RuntimeError msg))"
  using deep_lift_shap_no_examples[of
      "\<lparr>X = [], target = 0, batch_size = 32, references = Reference_tensor [], n_shuffles = 20,
        return_references = False, hypothetical = False, warning_threshold = 1 / 10000,
        additional_nonlinear_ops = None, print_convergence_deltas = False, raw_outputs = False,
        random_state = No_seed\<rparr>"
      "\<lparr>Xi = [], rj = [], attr' = [], attributions = [], references' = [], z = 0,
        model = \<lparr>modules = [], next_id = 0\<rparr>, rng = (), events = []\<rparr>"
      "\<lparr>modules = [\<lparr>layer = Linear [[1, - 1, 0, 0]] [0], forward_hooks = [],
                        forward_pre_hooks = [], backward_hooks = [], module_input = None,
                        module_output = None\<rparr>], next_id = 0\<rparr>" "()"]
  by simp


end
